theory Spec2Isabelle
  imports Complex_Main "HOL-Library.AList" "HOL-Library.Sublist" "HOL-Library.Multiset"
    "HOL-Library.List_Lexorder" "HOL-Library.Char_ord"
begin

section \<open>JavaScript values\<close>

text \<open>
  The server of \<^verbatim>\<open>src/api/index.js\<close> handles loosely typed data: the upstream payload is
  whatever JSON the collaborator sent, and the handlers build object literals from it. The
  values are modelled as one datatype. Numbers are reals (a JSON payload holds neither NaN
  nor an infinity), strings are lists of characters standing for the code units of the
  JavaScript string, and an object is the list of its own properties in insertion order.
  The second source file is the same server without the library endpoint: its cache store
  and its two handlers are those of \<^verbatim>\<open>src/api/index.js\<close>, line for line.
\<close>

datatype jsval =
    JUndefined
  | JNull
  | JBool bool
  | JNum real
  | JStr string
  | JArr "jsval list"
  | JObj "(string \<times> jsval) list"

text \<open>Truthiness, as \<^verbatim>\<open>!x\<close>, \<^verbatim>\<open>x || y\<close> and \<^verbatim>\<open>if (x)\<close> read it.\<close>

fun truthy :: "jsval \<Rightarrow> bool" where
  "truthy JUndefined = False"
| "truthy JNull = False"
| "truthy (JBool b) = b"
| "truthy (JNum n) = (n \<noteq> 0)"
| "truthy (JStr s) = (s \<noteq> [])"
| "truthy (JArr xs) = True"
| "truthy (JObj ps) = True"

text \<open>\<^verbatim>\<open>a || b\<close>: the left operand when it is truthy, the right one otherwise.\<close>

definition js_or :: "jsval \<Rightarrow> jsval \<Rightarrow> jsval" where
  "js_or a b = (if truthy a then a else b)"

definition nullish :: "jsval \<Rightarrow> bool" where
  "nullish v = (v = JUndefined \<or> v = JNull)"

text \<open>
  \<^verbatim>\<open>v.k\<close> on a receiver that is neither \<^verbatim>\<open>null\<close> nor \<^verbatim>\<open>undefined\<close>: the own property of
  an object, \<^verbatim>\<open>undefined\<close> when it has none. The property names this program reads
  (\<^verbatim>\<open>data\<close>, \<^verbatim>\<open>videos\<close>, \<^verbatim>\<open>play\<close>, ...) are no built-in member of a string, number, boolean
  or array, so those receivers answer \<^verbatim>\<open>undefined\<close>.
\<close>

fun field :: "jsval \<Rightarrow> string \<Rightarrow> jsval" where
  "field (JObj ps) k = (case map_of ps k of Some x \<Rightarrow> x | None \<Rightarrow> JUndefined)"
| "field v k = JUndefined"

text \<open>\<^verbatim>\<open>v?.k\<close>: \<^verbatim>\<open>undefined\<close> on a nullish receiver.\<close>

definition opt_field :: "jsval \<Rightarrow> string \<Rightarrow> jsval" where
  "opt_field v k = (if nullish v then JUndefined else field v k)"

section \<open>The cache store\<close>

text \<open>
  \<^verbatim>\<open>const cache = new Map(); const CACHE_TTL = 5 * 60 * 1000;\<close>
  The map is passed explicitly, and so is the reading of the clock (\<^verbatim>\<open>Date.now()\<close>, in
  milliseconds).
\<close>

record cache_item =
  data :: jsval
  expiry :: int

type_synonym cache = "string \<rightharpoonup> cache_item"

definition CACHE_TTL :: int where
  "CACHE_TTL = 5 * 60 * 1000"

text \<open>
  \<^verbatim>\<open>getCached(key)\<close> returns \<^verbatim>\<open>null\<close> when the map has no item, deletes the item and returns
  \<^verbatim>\<open>null\<close> when \<^verbatim>\<open>Date.now() > item.expiry\<close>, and returns \<^verbatim>\<open>item.data\<close> otherwise. The
  result is the returned value with the map as the call leaves it.
\<close>

definition getCached :: "int \<Rightarrow> string \<Rightarrow> cache \<Rightarrow> jsval \<times> cache" where
  "getCached now key c =
     (case c key of
        None \<Rightarrow> (JNull, c)
      | Some item \<Rightarrow>
          if now > expiry item then (JNull, c(key := None))
          else (data item, c))"

definition setCache :: "int \<Rightarrow> string \<Rightarrow> jsval \<Rightarrow> cache \<Rightarrow> cache" where
  "setCache now key d c = c(key \<mapsto> \<lparr>data = d, expiry = now + CACHE_TTL\<rparr>)"

section \<open>The record normalizer\<close>

text \<open>
  An error value: what a \<^verbatim>\<open>catch (err)\<close> of the handlers reads of it, that is \<^verbatim>\<open>err.code\<close>,
  \<^verbatim>\<open>err.response?.status\<close> and \<^verbatim>\<open>err.message\<close>. A \<^verbatim>\<open>TypeError\<close> raised by the runtime
  has neither a code nor a response; its message is the wording of V8.
\<close>

datatype js_error =
  JsError (err_code: "string option") (err_status: "int option") (err_message: string)

definition cannot_read :: "jsval \<Rightarrow> string \<Rightarrow> js_error" where
  "cannot_read v k =
     JsError None None
       (''Cannot read properties of '' @ (if v = JNull then ''null'' else ''undefined'') @
        '' (reading '' @ [CHR 0x27] @ k @ [CHR 0x27] @ '')'')"

definition not_a_function :: "string \<Rightarrow> js_error" where
  "not_a_function what = JsError None None (what @ '' is not a function'')"

text \<open>
  The callback of \<^verbatim>\<open>data.data.videos.map(...)\<close> in \<^verbatim>\<open>/api/search\<close>. Its first property read,
  \<^verbatim>\<open>v.video_id\<close>, throws when the element is \<^verbatim>\<open>null\<close> or \<^verbatim>\<open>undefined\<close>; on every other
  element no read throws. A property whose value is \<^verbatim>\<open>undefined\<close> is one that
  \<^verbatim>\<open>res.json\<close> leaves out of the response: it is absent from the record.
\<close>

definition normalize_search :: "jsval \<Rightarrow> js_error + jsval" where
  "normalize_search v =
     (if nullish v then Inl (cannot_read v ''video_id'')
      else Inr (JObj
        [(''id'', js_or (field v ''video_id'') (field v ''aweme_id'')),
         (''video_url'', field v ''play''),
         (''video_url_no_wm'', field v ''wmplay''),
         (''caption'', js_or (field v ''title'') (JStr [])),
         (''author'', JObj
            [(''username'', js_or (opt_field (field v ''author'') ''unique_id'') (JStr ''unknown'')),
             (''nickname'', js_or (opt_field (field v ''author'') ''nickname'') (JStr ''Unknown User'')),
             (''avatar'', js_or (opt_field (field v ''author'') ''avatar'') (JStr []))]),
         (''cover'', js_or (field v ''cover'') (field v ''origin_cover'')),
         (''duration'', js_or (field v ''duration'') (JNum 0)),
         (''stats'', JObj
            [(''likes'', js_or (field v ''digg_count'') (JNum 0)),
             (''comments'', js_or (field v ''comment_count'') (JNum 0)),
             (''shares'', js_or (field v ''share_count'') (JNum 0)),
             (''plays'', js_or (field v ''play_count'') (JNum 0))]),
         (''create_time'', field v ''create_time'')]))"

text \<open>The callback of \<^verbatim>\<open>/api/trending\<close>: the same literal without \<^verbatim>\<open>create_time\<close>.\<close>

definition normalize_trending :: "jsval \<Rightarrow> js_error + jsval" where
  "normalize_trending v =
     (if nullish v then Inl (cannot_read v ''video_id'')
      else Inr (JObj
        [(''id'', js_or (field v ''video_id'') (field v ''aweme_id'')),
         (''video_url'', field v ''play''),
         (''video_url_no_wm'', field v ''wmplay''),
         (''caption'', js_or (field v ''title'') (JStr [])),
         (''author'', JObj
            [(''username'', js_or (opt_field (field v ''author'') ''unique_id'') (JStr ''unknown'')),
             (''nickname'', js_or (opt_field (field v ''author'') ''nickname'') (JStr ''Unknown User'')),
             (''avatar'', js_or (opt_field (field v ''author'') ''avatar'') (JStr []))]),
         (''cover'', js_or (field v ''cover'') (field v ''origin_cover'')),
         (''duration'', js_or (field v ''duration'') (JNum 0)),
         (''stats'', JObj
            [(''likes'', js_or (field v ''digg_count'') (JNum 0)),
             (''comments'', js_or (field v ''comment_count'') (JNum 0)),
             (''shares'', js_or (field v ''share_count'') (JNum 0)),
             (''plays'', js_or (field v ''play_count'') (JNum 0))])]))"

text \<open>\<^verbatim>\<open>Array.prototype.map\<close> with a callback that may throw: the first throw ends the map.\<close>

fun map_throwing :: "('a \<Rightarrow> js_error + 'b) \<Rightarrow> 'a list \<Rightarrow> js_error + 'b list" where
  "map_throwing f [] = Inr []"
| "map_throwing f (x # xs) =
     (case f x of
        Inl e \<Rightarrow> Inl e
      | Inr y \<Rightarrow> (case map_throwing f xs of Inl e \<Rightarrow> Inl e | Inr ys \<Rightarrow> Inr (y # ys)))"

text \<open>The test of \<^verbatim>\<open>.filter(v => v.video_url)\<close> on a mapped record.\<close>

definition has_video_url :: "jsval \<Rightarrow> bool" where
  "has_video_url r = truthy (field r ''video_url'')"

text \<open>
  \<^verbatim>\<open>data.data.videos.map(...).filter(...)\<close> on a truthy \<^verbatim>\<open>videos\<close>: a value that is no array
  has no callable \<^verbatim>\<open>map\<close>, and the call throws.
\<close>

definition map_filter_videos ::
  "(jsval \<Rightarrow> js_error + jsval) \<Rightarrow> jsval \<Rightarrow> js_error + jsval list" where
  "map_filter_videos callback videos =
     (case videos of
        JArr xs \<Rightarrow>
          (case map_throwing callback xs of
             Inl e \<Rightarrow> Inl e
           | Inr rs \<Rightarrow> Inr (filter has_video_url rs))
      | _ \<Rightarrow> Inl (not_a_function ''data.data.videos.map''))"

section \<open>The query handlers\<close>

text \<open>
  The upstream collaborator is a parameter: a function from the request \<^verbatim>\<open>axios.get\<close> sends
  (for the search feed its \<^verbatim>\<open>keywords\<close>, \<^verbatim>\<open>count\<close> and \<^verbatim>\<open>hd\<close> parameters) to what the awaited
  promise does, resolving with \<^verbatim>\<open>response.data\<close> or rejecting with an error.
\<close>

datatype upstream_request = FeedSearch string nat nat | FeedList

datatype axios_result = Resolved jsval | Rejected js_error

text \<open>What a handler does besides answering, in the order it does it.\<close>

datatype effect =
  CacheGet string | CacheSet string | UpstreamGet upstream_request | ConsoleError string

record outcome =
  status :: nat
  body :: jsval
  cache_after :: cache
  effects :: "effect list"

text \<open>
  \<^verbatim>\<open>{ ...cached, cached: true }\<close>: the own properties of the spread value, then the flag,
  which replaces a property of that name where it stands and is appended otherwise. An
  array or a string spreads its elements under their indices, written in decimal; no
  value the handlers store is one.
\<close>

fun decimal :: "nat \<Rightarrow> string" where
  "decimal n =
     (if n < 10 then [char_of (48 + n)]
      else decimal (n div 10) @ [char_of (48 + n mod 10)])"

fun index_keyed :: "nat \<Rightarrow> jsval list \<Rightarrow> (string \<times> jsval) list" where
  "index_keyed i [] = []"
| "index_keyed i (x # xs) = (decimal i, x) # index_keyed (Suc i) xs"

fun own_properties :: "jsval \<Rightarrow> (string \<times> jsval) list" where
  "own_properties (JObj ps) = ps"
| "own_properties (JArr xs) = index_keyed 0 xs"
| "own_properties (JStr s) = index_keyed 0 (map (\<lambda>ch. JStr [ch]) s)"
| "own_properties v = []"

definition spread_cached :: "jsval \<Rightarrow> jsval" where
  "spread_cached cached = JObj (AList.update ''cached'' (JBool True) (own_properties cached))"

text \<open>\<^verbatim>\<open>const cacheKey = `search:${q}:${quality}`\<close>\<close>

definition cacheKey :: "string \<Rightarrow> string \<Rightarrow> string" where
  "cacheKey q quality = ''search:'' @ q @ '':'' @ quality"

text \<open>The default of the destructuring \<^verbatim>\<open>const { q, quality = "low" } = req.query\<close>.\<close>

definition default_quality :: "string option \<Rightarrow> string" where
  "default_quality quality_param = (case quality_param of None \<Rightarrow> ''low'' | Some s \<Rightarrow> s)"

definition missing_q :: "cache \<Rightarrow> outcome" where
  "missing_q c =
     \<lparr>status = 400,
      body = JObj [(''error'', JStr ''Missing query parameter: q''),
                   (''example'', JStr ''/api/search?q=spider+man'')],
      cache_after = c, effects = []\<rparr>"

definition query_too_long :: "cache \<Rightarrow> outcome" where
  "query_too_long c =
     \<lparr>status = 400,
      body = JObj [(''error'', JStr ''Query too long (max 100 characters)'')],
      cache_after = c, effects = []\<rparr>"

text \<open>The \<^verbatim>\<open>catch (err)\<close> of \<^verbatim>\<open>/api/search\<close>.\<close>

definition search_catch :: "string option \<Rightarrow> js_error \<Rightarrow> cache \<Rightarrow> effect list \<Rightarrow> outcome" where
  "search_catch node_env err c effs =
     (if err_code err = Some ''ECONNABORTED'' then
        \<lparr>status = 504,
         body = JObj [(''error'', JStr ''Request timeout''),
                      (''message'', JStr ''TikTok API is slow or unavailable'')],
         cache_after = c, effects = effs @ [ConsoleError (err_message err)]\<rparr>
      else if err_status err = Some 429 then
        \<lparr>status = 429,
         body = JObj [(''error'', JStr ''Rate limited''),
                      (''message'', JStr ''Too many requests. Please try again later.'')],
         cache_after = c, effects = effs @ [ConsoleError (err_message err)]\<rparr>
      else
        \<lparr>status = 500,
         body = JObj [(''error'', JStr ''Failed to fetch TikTok data''),
                      (''message'', JStr (if node_env = Some ''development'' then err_message err
                                          else ''Internal server error''))],
         cache_after = c, effects = effs @ [ConsoleError (err_message err)]\<rparr>)"

text \<open>
  \<^verbatim>\<open>app.get("/api/search", ...)\<close>. The query parameters \<^verbatim>\<open>q\<close> and \<^verbatim>\<open>quality\<close> are optional
  strings, the shape of the documented interface (repeated or bracketed parameters, which
  Express parses to arrays and objects, are outside this model). \<open>now_get\<close> is the clock as
  \<^verbatim>\<open>getCached\<close> reads it and \<open>now_set\<close> as \<^verbatim>\<open>setCache\<close> reads it after the upstream call.
\<close>

definition api_search ::
  "string option \<Rightarrow> (upstream_request \<Rightarrow> axios_result) \<Rightarrow> int \<Rightarrow> int \<Rightarrow>
   string option \<Rightarrow> string option \<Rightarrow> cache \<Rightarrow> outcome" where
  "api_search node_env upstream now_get now_set q_param quality_param c =
     (let quality = default_quality quality_param in
      (case q_param of
        None \<Rightarrow> missing_q c
      | Some q \<Rightarrow>
          (if q = [] then missing_q c
           else if length q > 100 then query_too_long c
           else
            (let key = cacheKey q quality;
                 cached = fst (getCached now_get key c);
                 c1 = snd (getCached now_get key c)
             in
              (if truthy cached then
                \<lparr>status = 200, body = spread_cached cached, cache_after = c1,
                 effects = [CacheGet key]\<rparr>
               else
                (let req = FeedSearch q 20 (if quality = ''high'' then 1 else 0);
                     effs = [CacheGet key, UpstreamGet req]
                 in
                  (case upstream req of
                    Rejected err \<Rightarrow> search_catch node_env err c1 effs
                  | Resolved d \<Rightarrow>
                      (if \<not> truthy (opt_field d ''data'') \<or>
                          \<not> truthy (field (field d ''data'') ''videos'')
                       then
                        \<lparr>status = 200,
                         body = JObj [(''videos'', JArr []), (''count'', JNum 0),
                                      (''query'', JStr q), (''message'', JStr ''No videos found'')],
                         cache_after = c1, effects = effs\<rparr>
                       else
                        (case map_filter_videos normalize_search
                                (field (field d ''data'') ''videos'') of
                          Inl err \<Rightarrow> search_catch node_env err c1 effs
                        | Inr videos \<Rightarrow>
                            (let result = JObj [(''videos'', JArr videos),
                                                (''count'', JNum (real (length videos))),
                                                (''query'', JStr q), (''cached'', JBool False)]
                             in
                              \<lparr>status = 200, body = result,
                               cache_after = setCache now_set key result c1,
                               effects = effs @ [CacheSet key]\<rparr>))))))))))"

text \<open>\<^verbatim>\<open>app.get("/api/trending", ...)\<close>, with its own \<^verbatim>\<open>catch (err)\<close>.\<close>

definition trending_catch :: "js_error \<Rightarrow> cache \<Rightarrow> effect list \<Rightarrow> outcome" where
  "trending_catch err c effs =
     \<lparr>status = 500,
      body = JObj [(''error'', JStr ''Failed to fetch trending videos'')],
      cache_after = c, effects = effs @ [ConsoleError (err_message err)]\<rparr>"

definition api_trending ::
  "(upstream_request \<Rightarrow> axios_result) \<Rightarrow> int \<Rightarrow> int \<Rightarrow> cache \<Rightarrow> outcome" where
  "api_trending upstream now_get now_set c =
     (let key = ''trending'';
          cached = fst (getCached now_get key c);
          c1 = snd (getCached now_get key c)
      in
        (if truthy cached then
          \<lparr>status = 200, body = spread_cached cached, cache_after = c1,
           effects = [CacheGet key]\<rparr>
         else
          (let effs = [CacheGet key, UpstreamGet FeedList] in
            (case upstream FeedList of
              Rejected err \<Rightarrow> trending_catch err c1 effs
            | Resolved d \<Rightarrow>
                (if \<not> truthy (opt_field d ''data'') \<or>
                    \<not> truthy (field (field d ''data'') ''videos'')
                 then
                  \<lparr>status = 200,
                   body = JObj [(''videos'', JArr []), (''count'', JNum 0),
                                (''message'', JStr ''No trending videos found'')],
                   cache_after = c1, effects = effs\<rparr>
                 else
                  (case map_filter_videos normalize_trending
                          (field (field d ''data'') ''videos'') of
                    Inl err \<Rightarrow> trending_catch err c1 effs
                  | Inr videos \<Rightarrow>
                      (let result = JObj [(''videos'', JArr videos),
                                          (''count'', JNum (real (length videos))),
                                          (''cached'', JBool False)]
                       in
                        \<lparr>status = 200, body = result,
                         cache_after = setCache now_set key result c1,
                         effects = effs @ [CacheSet key]\<rparr>)))))))"

section \<open>The library tree builder\<close>

text \<open>
  The file system under \<^verbatim>\<open>COMICS_DIR\<close>, as \<^verbatim>\<open>readComicsTree\<close> sees it through
  \<^verbatim>\<open>fs.readdirSync\<close> and \<^verbatim>\<open>fs.statSync\<close>: an entry is a directory whose listing returns its
  entries by name, in the order of the listing; a directory whose listing throws; anything
  else that can be stat'ed (size and modification time); or a name whose stat throws (a
  dangling link, an entry removed between the listing and the stat). The tree is finite:
  links that close a cycle are outside this model.
\<close>

datatype fsnode =
    FsDir "(string \<times> fsnode) list"
  | FsUnlistable
  | FsFile nat int
  | FsNoStat

datatype libnode =
    DirNode string string "libnode list"
  | FileNode string string nat int string

text \<open>The fields \<^verbatim>\<open>type\<close> and \<^verbatim>\<open>name\<close> of a node, which the sort reads.\<close>

fun node_type :: "libnode \<Rightarrow> string" where
  "node_type (DirNode name path children) = ''dir''"
| "node_type (FileNode name path sz modified url) = ''file''"

fun node_name :: "libnode \<Rightarrow> string" where
  "node_name (DirNode name path children) = name"
| "node_name (FileNode name path sz modified url) = name"

text \<open>\<^verbatim>\<open>name.startsWith(".")\<close>\<close>

definition hidden :: "string \<Rightarrow> bool" where
  "hidden name = (take 1 name = ''.'')"

text \<open>\<^verbatim>\<open>path.join(relPath, name)\<close> for a non-empty relative path and a name of a listing, with
  the separator of POSIX; \<^verbatim>\<open>rel.replace(/\\/g, "/")\<close> turns every backslash into a slash.\<close>

definition path_join :: "string \<Rightarrow> string \<Rightarrow> string" where
  "path_join relPath name = relPath @ ''/'' @ name"

definition slashed :: "string \<Rightarrow> string" where
  "slashed rel = map (\<lambda>ch. if ch = CHR 0x5C then CHR ''/'' else ch) rel"

text \<open>
  \<^verbatim>\<open>Array.prototype.sort(compare)\<close>: a stable sort. For a consistent comparator the
  language fixes its result, which insertion computes: each element goes before the first
  one it does not compare greater than.
\<close>

fun insert_sorted :: "('a \<Rightarrow> 'a \<Rightarrow> int) \<Rightarrow> 'a \<Rightarrow> 'a list \<Rightarrow> 'a list" where
  "insert_sorted compare x [] = [x]"
| "insert_sorted compare x (y # ys) =
     (if compare x y \<le> 0 then x # y # ys else y # insert_sorted compare x ys)"

definition js_sort :: "('a \<Rightarrow> 'a \<Rightarrow> int) \<Rightarrow> 'a list \<Rightarrow> 'a list" where
  "js_sort compare xs = foldr (insert_sorted compare) xs []"

text \<open>
  The comparator of the sort. \<open>localeCompare a b\<close> stands for \<^verbatim>\<open>a.localeCompare(b, "vi")\<close>,
  the collation of the runtime, a parameter of the model.
\<close>

definition node_compare :: "(string \<Rightarrow> string \<Rightarrow> int) \<Rightarrow> libnode \<Rightarrow> libnode \<Rightarrow> int" where
  "node_compare localeCompare a b =
     (if node_type a \<noteq> node_type b then (if node_type a = ''dir'' then - 1 else 1)
      else localeCompare (node_name a) (node_name b))"

text \<open>
  \<^verbatim>\<open>readComicsTree(dir, baseUrl, relPath)\<close>, on the file system entry at
  \<^verbatim>\<open>path.join(dir, relPath)\<close>. It returns \<^verbatim>\<open>entries\<close> and the relative paths of the calls that
  wrote to \<^verbatim>\<open>console.error\<close>, in order. \<open>map_entries\<close> is the callback of \<^verbatim>\<open>.map\<close> run over
  the filtered names: a stat that throws ends the map (\<open>None\<close>), and the \<^verbatim>\<open>catch\<close> of the
  call that runs the map leaves its \<^verbatim>\<open>entries\<close> empty.
\<close>

function readComicsTree ::
    "(string \<Rightarrow> string \<Rightarrow> int) \<Rightarrow> string \<Rightarrow> string \<Rightarrow> fsnode \<Rightarrow> libnode list \<times> string list"
  and map_entries ::
    "(string \<Rightarrow> string \<Rightarrow> int) \<Rightarrow> string \<Rightarrow> string \<Rightarrow> (string \<times> fsnode) list \<Rightarrow>
     libnode list option \<times> string list"
where
  "readComicsTree lc baseUrl relPath (FsDir es) =
     (case map_entries lc baseUrl relPath (filter (\<lambda>e. \<not> hidden (fst e)) es) of
        (Some nodes, logged) \<Rightarrow> (js_sort (node_compare lc) nodes, logged)
      | (None, logged) \<Rightarrow> ([], logged @ [relPath]))"
| "readComicsTree lc baseUrl relPath FsUnlistable = ([], [relPath])"
| "readComicsTree lc baseUrl relPath (FsFile sz modified) = ([], [relPath])"
| "readComicsTree lc baseUrl relPath FsNoStat = ([], [relPath])"
| "map_entries lc baseUrl relPath [] = (Some [], [])"
| "map_entries lc baseUrl relPath (e # rest) =
     (let name = fst e;
          rel = (if relPath \<noteq> [] then path_join relPath name else name)
      in
        (case snd e of
           FsNoStat \<Rightarrow> (None, [])
         | FsFile sz modified \<Rightarrow>
             (case map_entries lc baseUrl relPath rest of
                (Some nodes, logged) \<Rightarrow>
                  (Some (FileNode name (slashed rel) sz modified
                           (baseUrl @ ''/'' @ slashed rel) # nodes), logged)
              | (None, logged) \<Rightarrow> (None, logged))
         | d \<Rightarrow>
             (case readComicsTree lc baseUrl rel d of
                (children, logged1) \<Rightarrow>
                  (case map_entries lc baseUrl relPath rest of
                     (Some nodes, logged2) \<Rightarrow>
                       (Some (DirNode name (slashed rel) children # nodes), logged1 @ logged2)
                   | (None, logged2) \<Rightarrow> (None, logged1 @ logged2)))))"
  by pat_completeness auto

termination
proof (relation "measure (\<lambda>x. case x of
          Inl (lc, b, r, n) \<Rightarrow> size n
        | Inr (lc, b, r, es) \<Rightarrow> size_list (\<lambda>e. Suc (size (snd e))) es)")
  show "wf (measure (\<lambda>x. case x of
          Inl (lc, b, r, n) \<Rightarrow> size n
        | Inr (lc, b, r, es) \<Rightarrow> size_list (\<lambda>e. Suc (size (snd e))) es))"
    by simp
next
  fix lc :: "string \<Rightarrow> string \<Rightarrow> int" and baseUrl relPath :: string and es :: "(string \<times> fsnode) list"
  have "size_list f (filter P xs) \<le> size_list f xs" for f :: "(string \<times> fsnode) \<Rightarrow> nat" and P xs
    by (induction xs) auto
  then show "(Inr (lc, baseUrl, relPath, filter (\<lambda>e. \<not> hidden (fst e)) es), Inl (lc, baseUrl, relPath, FsDir es)) \<in> measure (\<lambda>x. case x of
          Inl (lc, b, r, n) \<Rightarrow> size n
        | Inr (lc, b, r, es) \<Rightarrow> size_list (\<lambda>e. Suc (size (snd e))) es)"
    by (simp add: less_Suc_eq_le size_prod_simp)
qed (auto simp: size_prod_simp)



text \<open>
  A comparator by code units. It is consistent, and on the names of the examples below
  it orders as the Vietnamese collation does; the examples instantiate \<open>localeCompare\<close>
  with it.
\<close>

definition codeunit_compare :: "string \<Rightarrow> string \<Rightarrow> int" where
  "codeunit_compare a b = (if a < b then - 1 else if a = b then 0 else 1)"

section \<open>Properties of the cache store\<close>

text \<open>
  C1, as the claim states it, fails at the boundary: a read at exactly \<open>t + 300000\<close> still
  returns the stored value and leaves the entry in the map, since the test in \<^verbatim>\<open>getCached\<close>
  is \<^verbatim>\<open>Date.now() > item.expiry\<close>.
\<close>

theorem getCached_boundary_not_expired:
  "(300000::int) \<ge> 0 + 300000 \<and>
   getCached 300000 ''trending'' (setCache 0 ''trending'' (JBool True) Map.empty)
     = (JBool True, setCache 0 ''trending'' (JBool True) Map.empty) \<and>
   fst (getCached 300000 ''trending'' (setCache 0 ''trending'' (JBool True) Map.empty))
     \<noteq> JNull \<and>
   snd (getCached 300000 ''trending'' (setCache 0 ''trending'' (JBool True) Map.empty))
     ''trending'' \<noteq> None"
  by (simp add: getCached_def setCache_def CACHE_TTL_def)

text \<open>
  C1 (amended): for every key, a value stored by \<^verbatim>\<open>setCache\<close> at time \<open>t\<close> is returned
  unchanged, and the map left as it is, by \<^verbatim>\<open>getCached\<close> at every read time
  \<open>t' \<le> t + 300000\<close>; at every read time \<open>t' > t + 300000\<close> the read returns \<^verbatim>\<open>null\<close> and
  deletes the entry. The boundary is inclusive: at exactly \<open>t' = t + 300000\<close> the entry is
  still served.
\<close>

theorem getCached_setCache_ttl:
  "(t' \<le> t + 300000 \<longrightarrow>
      getCached t' k (setCache t k v c) = (v, setCache t k v c)) \<and>
   (t' > t + 300000 \<longrightarrow>
      getCached t' k (setCache t k v c) = (JNull, (setCache t k v c)(k := None)) \<and>
      snd (getCached t' k (setCache t k v c)) k = None)"
  by (simp add: getCached_def setCache_def CACHE_TTL_def)

theorem getCached_setCache_ttl_witness:
  "getCached 1300000 ''trending'' (setCache 1000000 ''trending'' (JStr ''x'') Map.empty)
     = (JStr ''x'', setCache 1000000 ''trending'' (JStr ''x'') Map.empty) \<and>
   fst (getCached 1300001 ''trending'' (setCache 1000000 ''trending'' (JStr ''x'') Map.empty))
     = JNull \<and>
   snd (getCached 1300001 ''trending'' (setCache 1000000 ''trending'' (JStr ''x'') Map.empty))
     ''trending'' = None"
  using getCached_setCache_ttl [of 1300000 1000000 "''trending''" "JStr ''x''" Map.empty]
        getCached_setCache_ttl [of 1300001 1000000 "''trending''" "JStr ''x''" Map.empty]
  by simp

section \<open>Properties of the query handlers\<close>

lemma field_update:
  "field (JObj (AList.update k v ps)) k' = (if k' = k then v else field (JObj ps) k')"
  by (simp add: update_conv')

lemma getCached_miss_again:
  "\<not> truthy (fst (getCached t k c)) \<Longrightarrow> \<not> truthy (fst (getCached t' k (snd (getCached t k c))))"
  by (auto simp: getCached_def split: option.splits if_splits)

lemma getCached_hit_keeps: "truthy (fst (getCached t k c)) \<Longrightarrow> snd (getCached t k c) = c"
  by (auto simp: getCached_def split: option.splits if_splits)

lemma getCached_absent: "c k = None \<Longrightarrow> getCached t k c = (JNull, c)"
  by (simp add: getCached_def)

lemma api_search_invalid:
  "api_search env upstream now_get now_set None quality_param c = missing_q c"
  "api_search env upstream now_get now_set (Some []) quality_param c = missing_q c"
  "length q > 100 \<Longrightarrow>
     api_search env upstream now_get now_set (Some q) quality_param c = query_too_long c"
  by (auto simp: api_search_def Let_def)

lemma api_search_valid:
  assumes "q \<noteq> []" "length q \<le> 100"
  shows "api_search env upstream now_get now_set (Some q) quality_param c =
     (let quality = default_quality quality_param in
       (let key = cacheKey q quality;
            cached = fst (getCached now_get key c);
            c1 = snd (getCached now_get key c)
        in
         (if truthy cached then
           \<lparr>status = 200, body = spread_cached cached, cache_after = c1,
            effects = [CacheGet key]\<rparr>
          else
           (let req = FeedSearch q 20 (if quality = ''high'' then 1 else 0);
                effs = [CacheGet key, UpstreamGet req]
            in
             (case upstream req of
               Rejected err \<Rightarrow> search_catch env err c1 effs
             | Resolved d \<Rightarrow>
                 (if \<not> truthy (opt_field d ''data'') \<or>
                     \<not> truthy (field (field d ''data'') ''videos'')
                  then
                   \<lparr>status = 200,
                    body = JObj [(''videos'', JArr []), (''count'', JNum 0),
                                 (''query'', JStr q), (''message'', JStr ''No videos found'')],
                    cache_after = c1, effects = effs\<rparr>
                  else
                   (case map_filter_videos normalize_search
                           (field (field d ''data'') ''videos'') of
                     Inl err \<Rightarrow> search_catch env err c1 effs
                   | Inr videos \<Rightarrow>
                       (let result = JObj [(''videos'', JArr videos),
                                           (''count'', JNum (real (length videos))),
                                           (''query'', JStr q), (''cached'', JBool False)]
                        in
                         \<lparr>status = 200, body = result,
                          cache_after = setCache now_set key result c1,
                          effects = effs @ [CacheSet key]\<rparr>))))))))"
proof -
  have a: "(q = []) = False" "(100 < length q) = False"
    using assms by auto
  show ?thesis
    unfolding api_search_def by (simp only: a option.case if_False)
qed

lemma search_catch_status: "status (search_catch env err c effs) \<noteq> 400"
  by (simp add: search_catch_def)

lemma api_search_valid_status:
  assumes "q \<noteq> []" "length q \<le> 100"
  shows "status (api_search env upstream now_get now_set (Some q) quality_param c) \<noteq> 400"
  unfolding api_search_valid [OF assms] Let_def
  by (simp add: search_catch_status split: axios_result.splits sum.splits)

lemma api_search_valid_first_effect:
  assumes "q \<noteq> []" "length q \<le> 100"
  shows "take 1 (effects (api_search env upstream now_get now_set (Some q) quality_param c)) =
           [CacheGet (cacheKey q (default_quality quality_param))]"
  unfolding api_search_valid [OF assms] Let_def
  by (simp add: search_catch_def split: axios_result.splits sum.splits)

lemma api_search_hit:
  assumes "q \<noteq> []" "length q \<le> 100"
    and "truthy (fst (getCached now_get (cacheKey q (default_quality quality_param)) c))"
  shows "api_search env upstream now_get now_set (Some q) quality_param c =
           \<lparr>status = 200,
            body = spread_cached
                     (fst (getCached now_get (cacheKey q (default_quality quality_param)) c)),
            cache_after = c,
            effects = [CacheGet (cacheKey q (default_quality quality_param))]\<rparr>"
  using assms(3) unfolding api_search_valid [OF assms(1,2)] Let_def
  by (simp add: getCached_hit_keeps)

lemma api_trending_hit:
  assumes "truthy (fst (getCached now_get ''trending'' c))"
  shows "api_trending upstream now_get now_set c =
           \<lparr>status = 200, body = spread_cached (fst (getCached now_get ''trending'' c)),
            cache_after = c, effects = [CacheGet ''trending'']\<rparr>"
  using assms by (simp add: api_trending_def Let_def getCached_hit_keeps)

lemma api_search_no_list:
  assumes "q \<noteq> []" "length q \<le> 100"
    and "\<not> truthy (fst (getCached now_get (cacheKey q (default_quality quality_param)) c))"
    and "upstream (FeedSearch q 20 (if default_quality quality_param = ''high'' then 1 else 0))
           = Resolved d"
    and "\<not> truthy (opt_field d ''data'') \<or> \<not> truthy (field (field d ''data'') ''videos'')"
  shows "api_search env upstream now_get now_set (Some q) quality_param c =
           \<lparr>status = 200,
            body = JObj [(''videos'', JArr []), (''count'', JNum 0), (''query'', JStr q),
                         (''message'', JStr ''No videos found'')],
            cache_after = snd (getCached now_get (cacheKey q (default_quality quality_param)) c),
            effects = [CacheGet (cacheKey q (default_quality quality_param)),
                       UpstreamGet (FeedSearch q 20
                         (if default_quality quality_param = ''high'' then 1 else 0))]\<rparr>"
  using assms(3-5) unfolding api_search_valid [OF assms(1,2)] Let_def
  by simp

lemma api_trending_no_list:
  assumes "\<not> truthy (fst (getCached now_get ''trending'' c))"
    and "upstream FeedList = Resolved d"
    and "\<not> truthy (opt_field d ''data'') \<or> \<not> truthy (field (field d ''data'') ''videos'')"
  shows "api_trending upstream now_get now_set c =
           \<lparr>status = 200,
            body = JObj [(''videos'', JArr []), (''count'', JNum 0),
                         (''message'', JStr ''No trending videos found'')],
            cache_after = snd (getCached now_get ''trending'' c),
            effects = [CacheGet ''trending'', UpstreamGet FeedList]\<rparr>"
  using assms by (simp add: api_trending_def Let_def)

lemma api_search_miss_calls_upstream:
  assumes "q \<noteq> []" "length q \<le> 100"
    and "\<not> truthy (fst (getCached now_get (cacheKey q (default_quality quality_param)) c))"
  shows "take 2 (effects (api_search env upstream now_get now_set (Some q) quality_param c)) =
           [CacheGet (cacheKey q (default_quality quality_param)),
            UpstreamGet (FeedSearch q 20
              (if default_quality quality_param = ''high'' then 1 else 0))]"
  using assms(3) unfolding api_search_valid [OF assms(1,2)] Let_def
  by (simp add: search_catch_def split: axios_result.splits sum.splits)

lemma api_trending_miss_calls_upstream:
  assumes "\<not> truthy (fst (getCached now_get ''trending'' c))"
  shows "take 2 (effects (api_trending upstream now_get now_set c)) =
           [CacheGet ''trending'', UpstreamGet FeedList]"
  using assms
  by (simp add: api_trending_def Let_def trending_catch_def split: axios_result.splits sum.splits)

text \<open>
  C7, as the claim states it, fails for the empty string: \<^verbatim>\<open>/api/search?q=\<close> carries a \<open>q\<close>
  of length 0, which is at most 100, and \<^verbatim>\<open>if (!q)\<close> rejects it with status 400.
\<close>

theorem api_search_empty_q_rejected:
  "length ([] :: string) \<le> 100 \<and>
   status (api_search None (\<lambda>r. Resolved JNull) 0 0 (Some []) None Map.empty) = 400 \<and>
   body (api_search None (\<lambda>r. Resolved JNull) 0 0 (Some []) None Map.empty)
     = JObj [(''error'', JStr ''Missing query parameter: q''),
             (''example'', JStr ''/api/search?q=spider+man'')] \<and>
   effects (api_search None (\<lambda>r. Resolved JNull) 0 0 (Some []) None Map.empty) = []"
  by (simp add: api_search_invalid missing_q_def)

text \<open>
  C7 (amended): a request to \<^verbatim>\<open>/api/search\<close> with \<open>q\<close> absent or empty is rejected with
  status 400 and the example payload, and one whose \<open>q\<close> has more than 100 characters is
  rejected with status 400; the rejection comes before any cache read, cache write or
  upstream call (no effect, the cache as it was, whatever the upstream and the clock are).
  A non-empty \<open>q\<close> of at most 100 characters passes validation: the handler goes on to the
  cache lookup under the key of the request and does not answer 400.
\<close>

theorem api_search_validation:
  "(q_param = None \<or> q_param = Some [] \<longrightarrow>
      api_search env upstream now_get now_set q_param quality_param c =
        \<lparr>status = 400,
         body = JObj [(''error'', JStr ''Missing query parameter: q''),
                      (''example'', JStr ''/api/search?q=spider+man'')],
         cache_after = c, effects = []\<rparr>) \<and>
   (q_param = Some q \<and> length q > 100 \<longrightarrow>
      api_search env upstream now_get now_set q_param quality_param c =
        \<lparr>status = 400,
         body = JObj [(''error'', JStr ''Query too long (max 100 characters)'')],
         cache_after = c, effects = []\<rparr>) \<and>
   (q_param = Some q \<and> q \<noteq> [] \<and> length q \<le> 100 \<longrightarrow>
      status (api_search env upstream now_get now_set q_param quality_param c) \<noteq> 400 \<and>
      take 1 (effects (api_search env upstream now_get now_set q_param quality_param c)) =
        [CacheGet (cacheKey q (default_quality quality_param))])"
  by (auto simp: api_search_invalid missing_q_def query_too_long_def
      api_search_valid_status api_search_valid_first_effect simp del: One_nat_def)

theorem api_search_validation_witness:
  "api_search None (\<lambda>r. Rejected (JsError None None ''down'')) 5 6 None (Some ''high'') Map.empty =
     \<lparr>status = 400,
      body = JObj [(''error'', JStr ''Missing query parameter: q''),
                   (''example'', JStr ''/api/search?q=spider+man'')],
      cache_after = Map.empty, effects = []\<rparr> \<and>
   length (replicate 101 CHR ''a'') > 100 \<and>
   api_search None (\<lambda>r. Rejected (JsError None None ''down'')) 5 6
       (Some (replicate 101 CHR ''a'')) None Map.empty =
     \<lparr>status = 400,
      body = JObj [(''error'', JStr ''Query too long (max 100 characters)'')],
      cache_after = Map.empty, effects = []\<rparr> \<and>
   length (replicate 100 CHR ''a'') \<le> 100 \<and>
   status (api_search None (\<lambda>r. Rejected (JsError None None ''down'')) 5 6
       (Some (replicate 100 CHR ''a'')) None Map.empty) \<noteq> 400 \<and>
   take 1 (effects (api_search None (\<lambda>r. Rejected (JsError None None ''down'')) 5 6
       (Some (replicate 100 CHR ''a'')) None Map.empty)) =
     [CacheGet (cacheKey (replicate 100 CHR ''a'') ''low'')]"
  using api_search_validation [where q_param = None and quality_param = "Some ''high''"
          and env = None and upstream = "\<lambda>r. Rejected (JsError None None ''down'')"
          and now_get = 5 and now_set = 6 and c = Map.empty]
        api_search_validation [where q_param = "Some (replicate 101 CHR ''a'')"
          and q = "replicate 101 CHR ''a''" and quality_param = None
          and env = None and upstream = "\<lambda>r. Rejected (JsError None None ''down'')"
          and now_get = 5 and now_set = 6 and c = Map.empty]
        api_search_validation [where q_param = "Some (replicate 100 CHR ''a'')"
          and q = "replicate 100 CHR ''a''" and quality_param = None
          and env = None and upstream = "\<lambda>r. Rejected (JsError None None ''down'')"
          and now_get = 5 and now_set = 6 and c = Map.empty]
  by (simp add: default_quality_def)

lemma getCached_value:
  "fst (getCached t k c) = JNull \<or> (\<exists>item. c k = Some item \<and> fst (getCached t k c) = data item)"
  by (auto simp: getCached_def split: option.splits)

lemma getCached_keeps:
  "snd (getCached t k c) k' = Some item \<Longrightarrow> c k' = Some item"
  by (auto simp: getCached_def split: option.splits if_splits)

lemma search_catch_cache: "cache_after (search_catch env err c effs) = c"
  by (simp add: search_catch_def)

lemma api_search_cache_after:
  "cache_after (api_search env upstream now_get now_set q_param quality_param c) k = Some item \<Longrightarrow>
     c k = Some item \<or> (\<exists>ps. data item = JObj ps)"
proof (cases "\<exists>q. q_param = Some q \<and> q \<noteq> [] \<and> length q \<le> 100")
  case True
  then obtain q where q: "q_param = Some q" "q \<noteq> []" "length q \<le> 100"
    by blast
  assume "cache_after (api_search env upstream now_get now_set q_param quality_param c) k = Some item"
  then show ?thesis
    unfolding q(1) api_search_valid [OF q(2,3)] Let_def
    by (auto simp: search_catch_cache setCache_def dest: getCached_keeps
        split: if_splits axios_result.splits sum.splits)
next
  case False
  assume a: "cache_after (api_search env upstream now_get now_set q_param quality_param c) k = Some item"
  from False have "api_search env upstream now_get now_set q_param quality_param c = missing_q c \<or>
     api_search env upstream now_get now_set q_param quality_param c = query_too_long c"
    using api_search_invalid [where env = env and upstream = upstream and now_get = now_get
        and now_set = now_set and quality_param = quality_param and c = c]
    by (cases q_param) (auto simp: not_le)
  with a show ?thesis
    by (auto simp: missing_q_def query_too_long_def)
qed

lemma api_trending_cache_after:
  "cache_after (api_trending upstream now_get now_set c) k = Some item \<Longrightarrow>
     c k = Some item \<or> (\<exists>ps. data item = JObj ps)"
  unfolding api_trending_def Let_def
  by (auto simp: trending_catch_def setCache_def dest: getCached_keeps
      split: if_splits axios_result.splits sum.splits)

text \<open>
  The handlers write only result objects: a cache that holds only objects, as the empty one
  does, still holds only objects after any request.
\<close>

lemma handlers_store_objects:
  assumes "\<forall>k item. c k = Some item \<longrightarrow> (\<exists>ps. data item = JObj ps)"
  shows "\<forall>k item.
           cache_after (api_search env upstream now_get now_set q_param quality_param c) k = Some item
             \<longrightarrow> (\<exists>ps. data item = JObj ps)"
    and "\<forall>k item. cache_after (api_trending upstream now_get now_set c) k = Some item
             \<longrightarrow> (\<exists>ps. data item = JObj ps)"
  using assms api_search_cache_after api_trending_cache_after by blast+

lemma cache_hit_is_object:
  assumes "\<forall>k item. c k = Some item \<longrightarrow> (\<exists>ps. data item = JObj ps)"
    and "truthy (fst (getCached t k c))"
  shows "\<exists>ps. fst (getCached t k c) = JObj ps"
  using assms getCached_value [of t k c] by auto

lemma api_search_hit_merge:
  assumes "q \<noteq> []" and "length q \<le> 100"
    and "fst (getCached now (cacheKey q (default_quality quality_param)) c) = JObj stored"
  shows "api_search env upstream now now_set (Some q) quality_param c =
           \<lparr>status = 200, body = JObj (AList.update ''cached'' (JBool True) stored),
            cache_after = c,
            effects = [CacheGet (cacheKey q (default_quality quality_param))]\<rparr> \<and>
         field (body (api_search env upstream now now_set (Some q) quality_param c)) ''cached''
           = JBool True \<and>
         (\<forall>k. k \<noteq> ''cached'' \<longrightarrow>
           field (body (api_search env upstream now now_set (Some q) quality_param c)) k
             = field (JObj stored) k)"
proof -
  have s: "api_search env upstream now now_set (Some q) quality_param c =
           \<lparr>status = 200, body = JObj (AList.update ''cached'' (JBool True) stored),
            cache_after = c,
            effects = [CacheGet (cacheKey q (default_quality quality_param))]\<rparr>"
    using assms api_search_hit [of q now quality_param c env upstream now_set]
    by (simp add: spread_cached_def)
  show ?thesis
    by (simp add: s field_update del: field.simps)
qed

lemma api_trending_hit_merge:
  assumes "fst (getCached now ''trending'' c) = JObj stored"
  shows "api_trending upstream now now_set c =
           \<lparr>status = 200, body = JObj (AList.update ''cached'' (JBool True) stored),
            cache_after = c, effects = [CacheGet ''trending'']\<rparr> \<and>
         field (body (api_trending upstream now now_set c)) ''cached'' = JBool True \<and>
         (\<forall>k. k \<noteq> ''cached'' \<longrightarrow>
           field (body (api_trending upstream now now_set c)) k = field (JObj stored) k)"
proof -
  have t: "api_trending upstream now now_set c =
           \<lparr>status = 200, body = JObj (AList.update ''cached'' (JBool True) stored),
            cache_after = c, effects = [CacheGet ''trending'']\<rparr>"
    using assms api_trending_hit [of now c upstream now_set]
    by (simp add: spread_cached_def)
  show ?thesis
    by (simp add: t field_update del: field.simps)
qed

text \<open>
  C8: in a cache that holds only objects (every cache the handlers have written does), on
  every cache hit of \<^verbatim>\<open>/api/search\<close>, and likewise on every cache hit of \<^verbatim>\<open>/api/trending\<close>,
  whatever the cache holds under other keys, the handler answers 200 with the stored result
  object and the flag \<^verbatim>\<open>cached: true\<close> merged in: the field \<open>cached\<close> of the response is
  \<open>true\<close> whatever the stored object held there, every other top-level field is the stored
  one, and neither the upstream nor the cache is touched.
\<close>

theorem cache_hit_merges_flag:
  assumes "\<forall>k item. c k = Some item \<longrightarrow> (\<exists>ps. data item = JObj ps)"
  shows "(q \<noteq> [] \<and> length q \<le> 100 \<and>
          truthy (fst (getCached now (cacheKey q (default_quality quality_param)) c)) \<longrightarrow>
           (\<exists>stored.
              fst (getCached now (cacheKey q (default_quality quality_param)) c) = JObj stored \<and>
              api_search env upstream now now_set (Some q) quality_param c =
                \<lparr>status = 200, body = JObj (AList.update ''cached'' (JBool True) stored),
                 cache_after = c,
                 effects = [CacheGet (cacheKey q (default_quality quality_param))]\<rparr> \<and>
              field (body (api_search env upstream now now_set (Some q) quality_param c))
                ''cached'' = JBool True \<and>
              (\<forall>k. k \<noteq> ''cached'' \<longrightarrow>
                field (body (api_search env upstream now now_set (Some q) quality_param c)) k
                  = field (JObj stored) k))) \<and>
         (truthy (fst (getCached now' ''trending'' c)) \<longrightarrow>
           (\<exists>stored.
              fst (getCached now' ''trending'' c) = JObj stored \<and>
              api_trending upstream' now' now_set' c =
                \<lparr>status = 200, body = JObj (AList.update ''cached'' (JBool True) stored),
                 cache_after = c, effects = [CacheGet ''trending'']\<rparr> \<and>
              field (body (api_trending upstream' now' now_set' c)) ''cached'' = JBool True \<and>
              (\<forall>k. k \<noteq> ''cached'' \<longrightarrow>
                field (body (api_trending upstream' now' now_set' c)) k
                  = field (JObj stored) k)))"
proof (intro conjI impI)
  assume a: "q \<noteq> [] \<and> length q \<le> 100 \<and>
          truthy (fst (getCached now (cacheKey q (default_quality quality_param)) c))"
  then have q: "q \<noteq> []" "length q \<le> 100"
    and hit: "truthy (fst (getCached now (cacheKey q (default_quality quality_param)) c))"
    by simp_all
  obtain stored where s: "fst (getCached now (cacheKey q (default_quality quality_param)) c)
      = JObj stored"
    using cache_hit_is_object [OF assms hit] by blast
  show "\<exists>stored.
              fst (getCached now (cacheKey q (default_quality quality_param)) c) = JObj stored \<and>
              api_search env upstream now now_set (Some q) quality_param c =
                \<lparr>status = 200, body = JObj (AList.update ''cached'' (JBool True) stored),
                 cache_after = c,
                 effects = [CacheGet (cacheKey q (default_quality quality_param))]\<rparr> \<and>
              field (body (api_search env upstream now now_set (Some q) quality_param c))
                ''cached'' = JBool True \<and>
              (\<forall>k. k \<noteq> ''cached'' \<longrightarrow>
                field (body (api_search env upstream now now_set (Some q) quality_param c)) k
                  = field (JObj stored) k)"
    using s api_search_hit_merge [OF q s, of env upstream now_set]
    by (intro exI [of _ stored]) (rule conjI)
next
  assume hit: "truthy (fst (getCached now' ''trending'' c))"
  obtain stored where t: "fst (getCached now' ''trending'' c) = JObj stored"
    using cache_hit_is_object [OF assms hit] by blast
  show "\<exists>stored.
              fst (getCached now' ''trending'' c) = JObj stored \<and>
              api_trending upstream' now' now_set' c =
                \<lparr>status = 200, body = JObj (AList.update ''cached'' (JBool True) stored),
                 cache_after = c, effects = [CacheGet ''trending'']\<rparr> \<and>
              field (body (api_trending upstream' now' now_set' c)) ''cached'' = JBool True \<and>
              (\<forall>k. k \<noteq> ''cached'' \<longrightarrow>
                field (body (api_trending upstream' now' now_set' c)) k
                  = field (JObj stored) k)"
    using t api_trending_hit_merge [OF t, of upstream' now_set']
    by (intro exI [of _ stored]) (rule conjI)
qed

theorem cache_hit_merges_flag_witness:
  "api_search None (\<lambda>r. Rejected (JsError None None ''down'')) 1500 1600
       (Some ''cat'') None
       (setCache 1000 ''search:cat:low''
          (JObj [(''videos'', JArr []), (''count'', JNum 0), (''query'', JStr ''cat''),
                 (''cached'', JBool False)]) Map.empty) =
     \<lparr>status = 200,
      body = JObj [(''videos'', JArr []), (''count'', JNum 0), (''query'', JStr ''cat''),
                   (''cached'', JBool True)],
      cache_after = setCache 1000 ''search:cat:low''
          (JObj [(''videos'', JArr []), (''count'', JNum 0), (''query'', JStr ''cat''),
                 (''cached'', JBool False)]) Map.empty,
      effects = [CacheGet ''search:cat:low'']\<rparr> \<and>
   api_trending (\<lambda>r. Rejected (JsError None None ''down'')) 1500 1600
       (setCache 1200 ''trending''
          (JObj [(''videos'', JArr []), (''count'', JNum 0), (''cached'', JBool False)])
          Map.empty) =
     \<lparr>status = 200,
      body = JObj [(''videos'', JArr []), (''count'', JNum 0), (''cached'', JBool True)],
      cache_after = setCache 1200 ''trending''
          (JObj [(''videos'', JArr []), (''count'', JNum 0), (''cached'', JBool False)])
          Map.empty,
      effects = [CacheGet ''trending'']\<rparr>"
proof -
  define c1 where "c1 = setCache 1000 ''search:cat:low''
          (JObj [(''videos'', JArr []), (''count'', JNum 0), (''query'', JStr ''cat''),
                 (''cached'', JBool False)]) Map.empty"
  define c2 where "c2 = setCache 1200 ''trending''
          (JObj [(''videos'', JArr []), (''count'', JNum 0), (''cached'', JBool False)])
          Map.empty"
  have k: "cacheKey ''cat'' (default_quality None) = ''search:cat:low''"
    by (simp add: cacheKey_def default_quality_def)
  have g1: "fst (getCached 1500 (cacheKey ''cat'' (default_quality None)) c1) =
     JObj [(''videos'', JArr []), (''count'', JNum 0), (''query'', JStr ''cat''),
           (''cached'', JBool False)]"
    by (simp add: c1_def getCached_def setCache_def k CACHE_TTL_def)
  have g2: "fst (getCached 1500 ''trending'' c2) =
     JObj [(''videos'', JArr []), (''count'', JNum 0), (''cached'', JBool False)]"
    by (simp add: c2_def getCached_def setCache_def CACHE_TTL_def)
  have i1: "\<forall>k item. c1 k = Some item \<longrightarrow> (\<exists>ps. data item = JObj ps)"
    by (auto simp: c1_def setCache_def split: if_splits)
  have i2: "\<forall>k item. c2 k = Some item \<longrightarrow> (\<exists>ps. data item = JObj ps)"
    by (auto simp: c2_def setCache_def split: if_splits)
  have h1: "''cat'' \<noteq> [] \<and> length ''cat'' \<le> 100 \<and>
            truthy (fst (getCached 1500 (cacheKey ''cat'' (default_quality None)) c1))"
    by (simp add: g1)
  have h2: "truthy (fst (getCached 1500 ''trending'' c2))"
    by (simp add: g2)
  from cache_hit_merges_flag [OF i1, THEN conjunct1, THEN mp, OF h1,
      of None "\<lambda>r. Rejected (JsError None None ''down'')" 1600]
  obtain stored where
    f: "fst (getCached 1500 (cacheKey ''cat'' (default_quality None)) c1) = JObj stored"
       "api_search None (\<lambda>r. Rejected (JsError None None ''down'')) 1500 1600 (Some ''cat'') None c1 =
           \<lparr>status = 200, body = JObj (AList.update ''cached'' (JBool True) stored),
            cache_after = c1,
            effects = [CacheGet (cacheKey ''cat'' (default_quality None))]\<rparr>"
    by (elim exE conjE)
  from cache_hit_merges_flag [OF i2, THEN conjunct2, THEN mp, OF h2,
      of "\<lambda>r. Rejected (JsError None None ''down'')" 1600]
  obtain stored' where
    f': "fst (getCached 1500 ''trending'' c2) = JObj stored'"
       "api_trending (\<lambda>r. Rejected (JsError None None ''down'')) 1500 1600 c2 =
           \<lparr>status = 200, body = JObj (AList.update ''cached'' (JBool True) stored'),
            cache_after = c2, effects = [CacheGet ''trending'']\<rparr>"
    by (elim exE conjE)
  have "stored = [(''videos'', JArr []), (''count'', JNum 0), (''query'', JStr ''cat''),
                  (''cached'', JBool False)]"
    and "stored' = [(''videos'', JArr []), (''count'', JNum 0), (''cached'', JBool False)]"
    using f(1) f'(1) unfolding g1 g2 by simp_all
  then have "api_search None (\<lambda>r. Rejected (JsError None None ''down'')) 1500 1600
        (Some ''cat'') None c1 =
     \<lparr>status = 200,
      body = JObj [(''videos'', JArr []), (''count'', JNum 0), (''query'', JStr ''cat''),
                   (''cached'', JBool True)],
      cache_after = c1, effects = [CacheGet ''search:cat:low'']\<rparr> \<and>
     api_trending (\<lambda>r. Rejected (JsError None None ''down'')) 1500 1600 c2 =
     \<lparr>status = 200,
      body = JObj [(''videos'', JArr []), (''count'', JNum 0), (''cached'', JBool True)],
      cache_after = c2, effects = [CacheGet ''trending'']\<rparr>"
    unfolding f(2) f'(2) k by simp
  then show ?thesis
    unfolding c1_def c2_def .
qed

text \<open>
  C9: the key derivation of \<^verbatim>\<open>/api/search\<close> is not injective. The parameters
  \<open>q = "a:high"\<close>, \<open>quality = "low"\<close> and \<open>q = "a"\<close>, \<open>quality = "high:low"\<close> differ and both
  give the key \<open>"search:a:high:low"\<close>; the response stored for the first request is served
  to the second one within the TTL, with no upstream call, whatever its upstream would
  answer, and it carries the first request's \<open>query\<close>.
\<close>

theorem cacheKey_collision:
  "cacheKey ''a:high'' ''low'' = ''search:a:high:low'' \<and>
   cacheKey ''a'' ''high:low'' = ''search:a:high:low'' \<and>
   (''a:high'', ''low'') \<noteq> (''a'', ''high:low'') \<and>
   (\<exists>q1 quality1 q2 quality2.
      (q1, quality1) \<noteq> (q2, quality2) \<and> cacheKey q1 quality1 = cacheKey q2 quality2) \<and>
   effects (api_search env
      (\<lambda>r. Resolved (JObj [(''data'', JObj [(''videos'',
          JArr [JObj [(''video_id'', JStr ''7''), (''play'', JStr ''u'')]])])]))
      1000 1200 (Some ''a:high'') (Some ''low'') Map.empty)
     = [CacheGet ''search:a:high:low'', UpstreamGet (FeedSearch ''a:high'' 20 0),
        CacheSet ''search:a:high:low''] \<and>
   effects (api_search env' u 2000 t (Some ''a'') (Some ''high:low'')
      (cache_after (api_search env
        (\<lambda>r. Resolved (JObj [(''data'', JObj [(''videos'',
            JArr [JObj [(''video_id'', JStr ''7''), (''play'', JStr ''u'')]])])]))
        1000 1200 (Some ''a:high'') (Some ''low'') Map.empty)))
     = [CacheGet ''search:a:high:low''] \<and>
   field (body (api_search env' u 2000 t (Some ''a'') (Some ''high:low'')
      (cache_after (api_search env
        (\<lambda>r. Resolved (JObj [(''data'', JObj [(''videos'',
            JArr [JObj [(''video_id'', JStr ''7''), (''play'', JStr ''u'')]])])]))
        1000 1200 (Some ''a:high'') (Some ''low'') Map.empty)))) ''query''
     = JStr ''a:high''"
proof -
  have k: "cacheKey ''a:high'' ''low'' = cacheKey ''a'' ''high:low''"
    by (simp add: cacheKey_def)
  have d: "(''a:high'', ''low'') \<noteq> (''a'', ''high:low'')"
    by simp
  from k d have "\<exists>q1 quality1 q2 quality2.
      (q1, quality1) \<noteq> (q2, quality2) \<and> cacheKey q1 quality1 = cacheKey q2 quality2"
    by blast
  then show ?thesis
    by (simp add: api_search_def Let_def default_quality_def cacheKey_def getCached_def
        setCache_def CACHE_TTL_def opt_field_def nullish_def map_filter_videos_def
        normalize_search_def js_or_def has_video_url_def spread_cached_def)
qed

theorem cacheKey_collision_witness:
  "effects (api_search None (\<lambda>r. Rejected (JsError None None ''down'')) 2000 2100
      (Some ''a'') (Some ''high:low'')
      (cache_after (api_search None
        (\<lambda>r. Resolved (JObj [(''data'', JObj [(''videos'',
            JArr [JObj [(''video_id'', JStr ''7''), (''play'', JStr ''u'')]])])]))
        1000 1200 (Some ''a:high'') (Some ''low'') Map.empty)))
     = [CacheGet ''search:a:high:low''] \<and>
   field (body (api_search None (\<lambda>r. Rejected (JsError None None ''down'')) 2000 2100
      (Some ''a'') (Some ''high:low'')
      (cache_after (api_search None
        (\<lambda>r. Resolved (JObj [(''data'', JObj [(''videos'',
            JArr [JObj [(''video_id'', JStr ''7''), (''play'', JStr ''u'')]])])]))
        1000 1200 (Some ''a:high'') (Some ''low'') Map.empty)))) ''query''
     = JStr ''a:high''"
  using cacheKey_collision [of None None "\<lambda>r. Rejected (JsError None None ''down'')" 2100]
  by simp

text \<open>
  C10: when the upstream call of \<^verbatim>\<open>/api/search\<close> succeeds and its payload has no video
  list (\<^verbatim>\<open>!data?.data || !data.data.videos\<close>), the empty-result response has no \<open>cached\<close>
  field and is not written to the cache: the handler does no cache write, the map is as the
  lookup left it (the map as it was, when it held nothing under the key), and an identical
  request afterwards, at any time, calls the upstream again. The same holds of
  \<^verbatim>\<open>/api/trending\<close>. Each handler is taken by itself: nothing is assumed of what the
  upstream answers to the other one.
\<close>

theorem empty_result_not_cached:
  "(q \<noteq> [] \<and> length q \<le> 100 \<and>
    \<not> truthy (fst (getCached now (cacheKey q (default_quality quality_param)) c)) \<and>
    upstream (FeedSearch q 20 (if default_quality quality_param = ''high'' then 1 else 0))
      = Resolved d \<and>
    (\<not> truthy (opt_field d ''data'') \<or> \<not> truthy (field (field d ''data'') ''videos'')) \<longrightarrow>
      api_search env upstream now now_set (Some q) quality_param c =
        \<lparr>status = 200,
         body = JObj [(''videos'', JArr []), (''count'', JNum 0), (''query'', JStr q),
                      (''message'', JStr ''No videos found'')],
         cache_after = snd (getCached now (cacheKey q (default_quality quality_param)) c),
         effects = [CacheGet (cacheKey q (default_quality quality_param)),
                    UpstreamGet (FeedSearch q 20
                      (if default_quality quality_param = ''high'' then 1 else 0))]\<rparr> \<and>
      field (body (api_search env upstream now now_set (Some q) quality_param c)) ''cached''
        = JUndefined \<and>
      (c (cacheKey q (default_quality quality_param)) = None \<longrightarrow>
         cache_after (api_search env upstream now now_set (Some q) quality_param c) = c) \<and>
      take 2 (effects (api_search env2 upstream2 later later_set (Some q) quality_param
         (cache_after (api_search env upstream now now_set (Some q) quality_param c))))
        = [CacheGet (cacheKey q (default_quality quality_param)),
           UpstreamGet (FeedSearch q 20
             (if default_quality quality_param = ''high'' then 1 else 0))]) \<and>
   (\<not> truthy (fst (getCached now' ''trending'' c')) \<and>
    upstream' FeedList = Resolved d' \<and>
    (\<not> truthy (opt_field d' ''data'') \<or> \<not> truthy (field (field d' ''data'') ''videos'')) \<longrightarrow>
      api_trending upstream' now' now_set' c' =
        \<lparr>status = 200,
         body = JObj [(''videos'', JArr []), (''count'', JNum 0),
                      (''message'', JStr ''No trending videos found'')],
         cache_after = snd (getCached now' ''trending'' c'),
         effects = [CacheGet ''trending'', UpstreamGet FeedList]\<rparr> \<and>
      field (body (api_trending upstream' now' now_set' c')) ''cached'' = JUndefined \<and>
      (c' ''trending'' = None \<longrightarrow> cache_after (api_trending upstream' now' now_set' c') = c') \<and>
      take 2 (effects (api_trending upstream2' later' later_set'
         (cache_after (api_trending upstream' now' now_set' c'))))
        = [CacheGet ''trending'', UpstreamGet FeedList])"
proof (rule conjI; rule impI)
  assume a: "q \<noteq> [] \<and> length q \<le> 100 \<and>
    \<not> truthy (fst (getCached now (cacheKey q (default_quality quality_param)) c)) \<and>
    upstream (FeedSearch q 20 (if default_quality quality_param = ''high'' then 1 else 0))
      = Resolved d \<and>
    (\<not> truthy (opt_field d ''data'') \<or> \<not> truthy (field (field d ''data'') ''videos''))"
  then have q: "q \<noteq> []" "length q \<le> 100"
    and miss: "\<not> truthy (fst (getCached now (cacheKey q (default_quality quality_param)) c))"
    and up: "upstream (FeedSearch q 20 (if default_quality quality_param = ''high'' then 1 else 0))
      = Resolved d"
    and nl: "\<not> truthy (opt_field d ''data'') \<or> \<not> truthy (field (field d ''data'') ''videos'')"
    by simp_all
  have s: "api_search env upstream now now_set (Some q) quality_param c =
        \<lparr>status = 200,
         body = JObj [(''videos'', JArr []), (''count'', JNum 0), (''query'', JStr q),
                      (''message'', JStr ''No videos found'')],
         cache_after = snd (getCached now (cacheKey q (default_quality quality_param)) c),
         effects = [CacheGet (cacheKey q (default_quality quality_param)),
                    UpstreamGet (FeedSearch q 20
                      (if default_quality quality_param = ''high'' then 1 else 0))]\<rparr>"
    using api_search_no_list [where upstream = upstream and d = d, OF q miss up nl] .
  have s2: "take 2 (effects (api_search env2 upstream2 later later_set (Some q) quality_param
         (snd (getCached now (cacheKey q (default_quality quality_param)) c))))
        = [CacheGet (cacheKey q (default_quality quality_param)),
           UpstreamGet (FeedSearch q 20
             (if default_quality quality_param = ''high'' then 1 else 0))]"
    using api_search_miss_calls_upstream [OF q getCached_miss_again [OF miss]] .
  show "api_search env upstream now now_set (Some q) quality_param c =
        \<lparr>status = 200,
         body = JObj [(''videos'', JArr []), (''count'', JNum 0), (''query'', JStr q),
                      (''message'', JStr ''No videos found'')],
         cache_after = snd (getCached now (cacheKey q (default_quality quality_param)) c),
         effects = [CacheGet (cacheKey q (default_quality quality_param)),
                    UpstreamGet (FeedSearch q 20
                      (if default_quality quality_param = ''high'' then 1 else 0))]\<rparr> \<and>
      field (body (api_search env upstream now now_set (Some q) quality_param c)) ''cached''
        = JUndefined \<and>
      (c (cacheKey q (default_quality quality_param)) = None \<longrightarrow>
         cache_after (api_search env upstream now now_set (Some q) quality_param c) = c) \<and>
      take 2 (effects (api_search env2 upstream2 later later_set (Some q) quality_param
         (cache_after (api_search env upstream now now_set (Some q) quality_param c))))
        = [CacheGet (cacheKey q (default_quality quality_param)),
           UpstreamGet (FeedSearch q 20
             (if default_quality quality_param = ''high'' then 1 else 0))]"
    unfolding s outcome.simps
    using s2 by (simp add: getCached_absent)
next
  assume a: "\<not> truthy (fst (getCached now' ''trending'' c')) \<and>
    upstream' FeedList = Resolved d' \<and>
    (\<not> truthy (opt_field d' ''data'') \<or> \<not> truthy (field (field d' ''data'') ''videos''))"
  then have miss: "\<not> truthy (fst (getCached now' ''trending'' c'))"
    and up: "upstream' FeedList = Resolved d'"
    and nl: "\<not> truthy (opt_field d' ''data'') \<or> \<not> truthy (field (field d' ''data'') ''videos'')"
    by simp_all
  have t: "api_trending upstream' now' now_set' c' =
        \<lparr>status = 200,
         body = JObj [(''videos'', JArr []), (''count'', JNum 0),
                      (''message'', JStr ''No trending videos found'')],
         cache_after = snd (getCached now' ''trending'' c'),
         effects = [CacheGet ''trending'', UpstreamGet FeedList]\<rparr>"
    using api_trending_no_list [where upstream = upstream' and d = d', OF miss up nl] .
  have t2: "take 2 (effects (api_trending upstream2' later' later_set'
              (snd (getCached now' ''trending'' c')))) =
            [CacheGet ''trending'', UpstreamGet FeedList]"
    using api_trending_miss_calls_upstream [OF getCached_miss_again [OF miss]] .
  show "api_trending upstream' now' now_set' c' =
        \<lparr>status = 200,
         body = JObj [(''videos'', JArr []), (''count'', JNum 0),
                      (''message'', JStr ''No trending videos found'')],
         cache_after = snd (getCached now' ''trending'' c'),
         effects = [CacheGet ''trending'', UpstreamGet FeedList]\<rparr> \<and>
      field (body (api_trending upstream' now' now_set' c')) ''cached'' = JUndefined \<and>
      (c' ''trending'' = None \<longrightarrow> cache_after (api_trending upstream' now' now_set' c') = c') \<and>
      take 2 (effects (api_trending upstream2' later' later_set'
         (cache_after (api_trending upstream' now' now_set' c'))))
        = [CacheGet ''trending'', UpstreamGet FeedList]"
    unfolding t outcome.simps
    using t2 by (simp add: getCached_absent)
qed

theorem empty_result_not_cached_witness:
  "api_search None
       (\<lambda>r. case r of
          FeedList \<Rightarrow> Rejected (JsError None None ''down'')
        | FeedSearch k n h \<Rightarrow> Resolved (JObj [(''code'', JNum (- 1)), (''msg'', JStr ''limit'')]))
       1000 1100 (Some ''cat'') (Some ''high'') Map.empty =
     \<lparr>status = 200,
      body = JObj [(''videos'', JArr []), (''count'', JNum 0), (''query'', JStr ''cat''),
                   (''message'', JStr ''No videos found'')],
      cache_after = Map.empty,
      effects = [CacheGet ''search:cat:high'', UpstreamGet (FeedSearch ''cat'' 20 1)]\<rparr> \<and>
   api_trending
       (\<lambda>r. case r of
          FeedList \<Rightarrow> Resolved (JObj [(''code'', JNum (- 1)), (''msg'', JStr ''limit'')])
        | FeedSearch k n h \<Rightarrow> Rejected (JsError None None ''down''))
       1000 1100 Map.empty =
     \<lparr>status = 200,
      body = JObj [(''videos'', JArr []), (''count'', JNum 0),
                   (''message'', JStr ''No trending videos found'')],
      cache_after = Map.empty,
      effects = [CacheGet ''trending'', UpstreamGet FeedList]\<rparr>"
  using empty_result_not_cached [where q = "''cat''" and quality_param = "Some ''high''"
      and now = 1000 and now_set = 1100 and c = Map.empty
      and now' = 1000 and now_set' = 1100 and c' = Map.empty
      and upstream = "\<lambda>r. case r of
          FeedList \<Rightarrow> Rejected (JsError None None ''down'')
        | FeedSearch k n h \<Rightarrow> Resolved (JObj [(''code'', JNum (- 1)), (''msg'', JStr ''limit'')])"
      and upstream' = "\<lambda>r. case r of
          FeedList \<Rightarrow> Resolved (JObj [(''code'', JNum (- 1)), (''msg'', JStr ''limit'')])
        | FeedSearch k n h \<Rightarrow> Rejected (JsError None None ''down'')"
      and d = "JObj [(''code'', JNum (- 1)), (''msg'', JStr ''limit'')]"
      and d' = "JObj [(''code'', JNum (- 1)), (''msg'', JStr ''limit'')]"
      and env = None]
  by (simp add: cacheKey_def default_quality_def getCached_def opt_field_def nullish_def)

section \<open>Properties of the record normalizer\<close>

lemma js_or_cases: "js_or a b = (if truthy a then a else b)"
  by (simp add: js_or_def)

lemma truthy_not_nullish: "truthy a \<Longrightarrow> \<not> nullish a"
  by (auto simp: nullish_def)

lemma js_or_default_present: "\<not> nullish b \<Longrightarrow> \<not> nullish (js_or a b)"
  by (simp add: js_or_def truthy_not_nullish)

lemma js_or_undefined: "js_or a b = JUndefined \<longleftrightarrow> \<not> truthy a \<and> b = JUndefined"
  by (auto simp: js_or_def)

lemma normalize_total:
  "\<not> nullish v \<Longrightarrow> \<exists>r. normalize_search v = Inr r"
  "\<not> nullish v \<Longrightarrow> \<exists>r. normalize_trending v = Inr r"
  by (simp_all add: normalize_search_def normalize_trending_def)

lemma normalize_video_url:
  "normalize_search v = Inr r \<Longrightarrow> field r ''video_url'' = field v ''play''"
  "normalize_trending v = Inr r \<Longrightarrow> field r ''video_url'' = field v ''play''"
  by (auto simp: normalize_search_def normalize_trending_def split: if_splits)

lemma normalize_search_fields:
  assumes "normalize_search v = Inr r"
  shows "field r ''id'' = js_or (field v ''video_id'') (field v ''aweme_id'') \<and>
         field r ''video_url'' = field v ''play'' \<and>
         field r ''video_url_no_wm'' = field v ''wmplay'' \<and>
         field r ''caption'' = js_or (field v ''title'') (JStr []) \<and>
         field (field r ''author'') ''username'' =
           js_or (opt_field (field v ''author'') ''unique_id'') (JStr ''unknown'') \<and>
         field (field r ''author'') ''nickname'' =
           js_or (opt_field (field v ''author'') ''nickname'') (JStr ''Unknown User'') \<and>
         field (field r ''author'') ''avatar'' =
           js_or (opt_field (field v ''author'') ''avatar'') (JStr []) \<and>
         field r ''cover'' = js_or (field v ''cover'') (field v ''origin_cover'') \<and>
         field r ''duration'' = js_or (field v ''duration'') (JNum 0) \<and>
         field (field r ''stats'') ''likes'' = js_or (field v ''digg_count'') (JNum 0) \<and>
         field (field r ''stats'') ''comments'' = js_or (field v ''comment_count'') (JNum 0) \<and>
         field (field r ''stats'') ''shares'' = js_or (field v ''share_count'') (JNum 0) \<and>
         field (field r ''stats'') ''plays'' = js_or (field v ''play_count'') (JNum 0)"
proof -
  from assms have n: "\<not> nullish v"
    by (simp add: normalize_search_def split: if_splits)
  from assms have r: "r = projr (normalize_search v)"
    by simp
  show ?thesis
    unfolding r normalize_search_def using n by simp
qed

lemma normalize_trending_fields:
  assumes "normalize_trending v = Inr r"
  shows "field r ''id'' = js_or (field v ''video_id'') (field v ''aweme_id'') \<and>
         field r ''video_url'' = field v ''play'' \<and>
         field r ''video_url_no_wm'' = field v ''wmplay'' \<and>
         field r ''caption'' = js_or (field v ''title'') (JStr []) \<and>
         field (field r ''author'') ''username'' =
           js_or (opt_field (field v ''author'') ''unique_id'') (JStr ''unknown'') \<and>
         field (field r ''author'') ''nickname'' =
           js_or (opt_field (field v ''author'') ''nickname'') (JStr ''Unknown User'') \<and>
         field (field r ''author'') ''avatar'' =
           js_or (opt_field (field v ''author'') ''avatar'') (JStr []) \<and>
         field r ''cover'' = js_or (field v ''cover'') (field v ''origin_cover'') \<and>
         field r ''duration'' = js_or (field v ''duration'') (JNum 0) \<and>
         field (field r ''stats'') ''likes'' = js_or (field v ''digg_count'') (JNum 0) \<and>
         field (field r ''stats'') ''comments'' = js_or (field v ''comment_count'') (JNum 0) \<and>
         field (field r ''stats'') ''shares'' = js_or (field v ''share_count'') (JNum 0) \<and>
         field (field r ''stats'') ''plays'' = js_or (field v ''play_count'') (JNum 0)"
proof -
  from assms have n: "\<not> nullish v"
    by (simp add: normalize_trending_def split: if_splits)
  from assms have r: "r = projr (normalize_trending v)"
    by simp
  show ?thesis
    unfolding r normalize_trending_def using n by simp
qed

lemma normalize_fields:
  assumes "f = normalize_search \<or> f = normalize_trending" and "f v = Inr r"
  shows "field r ''id'' = js_or (field v ''video_id'') (field v ''aweme_id'') \<and>
         field r ''video_url'' = field v ''play'' \<and>
         field r ''video_url_no_wm'' = field v ''wmplay'' \<and>
         field r ''caption'' = js_or (field v ''title'') (JStr []) \<and>
         field (field r ''author'') ''username'' =
           js_or (opt_field (field v ''author'') ''unique_id'') (JStr ''unknown'') \<and>
         field (field r ''author'') ''nickname'' =
           js_or (opt_field (field v ''author'') ''nickname'') (JStr ''Unknown User'') \<and>
         field (field r ''author'') ''avatar'' =
           js_or (opt_field (field v ''author'') ''avatar'') (JStr []) \<and>
         field r ''cover'' = js_or (field v ''cover'') (field v ''origin_cover'') \<and>
         field r ''duration'' = js_or (field v ''duration'') (JNum 0) \<and>
         field (field r ''stats'') ''likes'' = js_or (field v ''digg_count'') (JNum 0) \<and>
         field (field r ''stats'') ''comments'' = js_or (field v ''comment_count'') (JNum 0) \<and>
         field (field r ''stats'') ''shares'' = js_or (field v ''share_count'') (JNum 0) \<and>
         field (field r ''stats'') ''plays'' = js_or (field v ''play_count'') (JNum 0)"
  using assms(1)
proof
  assume f: "f = normalize_search"
  show ?thesis
    using assms(2) unfolding f by (rule normalize_search_fields)
next
  assume f: "f = normalize_trending"
  show ?thesis
    using assms(2) unfolding f by (rule normalize_trending_fields)
qed



text \<open>
  C6: on every upstream record (any value but \<^verbatim>\<open>null\<close> and \<^verbatim>\<open>undefined\<close>) the callbacks of
  \<^verbatim>\<open>/api/search\<close> and \<^verbatim>\<open>/api/trending\<close> return a record whose \<open>caption\<close> is the title, or
  \<open>""\<close> when the title is absent or falsy; likewise \<open>author.username\<close> defaults to
  \<open>"unknown"\<close>, \<open>author.nickname\<close> to \<open>"Unknown User"\<close>, \<open>author.avatar\<close> to \<open>""\<close>, \<open>cover\<close> falls
  back to the origin cover, and \<open>duration\<close> and the four \<open>stats\<close> fields default to \<open>0\<close>.
\<close>

theorem normalize_defaults:
  assumes "\<not> nullish v" and "f = normalize_search \<or> f = normalize_trending"
  shows "\<exists>r. f v = Inr r \<and>
     field r ''caption'' = (if truthy (field v ''title'') then field v ''title'' else JStr []) \<and>
     field (field r ''author'') ''username'' =
       (if truthy (opt_field (field v ''author'') ''unique_id'')
        then opt_field (field v ''author'') ''unique_id'' else JStr ''unknown'') \<and>
     field (field r ''author'') ''nickname'' =
       (if truthy (opt_field (field v ''author'') ''nickname'')
        then opt_field (field v ''author'') ''nickname'' else JStr ''Unknown User'') \<and>
     field (field r ''author'') ''avatar'' =
       (if truthy (opt_field (field v ''author'') ''avatar'')
        then opt_field (field v ''author'') ''avatar'' else JStr []) \<and>
     field r ''cover'' =
       (if truthy (field v ''cover'') then field v ''cover'' else field v ''origin_cover'') \<and>
     field r ''duration'' =
       (if truthy (field v ''duration'') then field v ''duration'' else JNum 0) \<and>
     field (field r ''stats'') ''likes'' =
       (if truthy (field v ''digg_count'') then field v ''digg_count'' else JNum 0) \<and>
     field (field r ''stats'') ''comments'' =
       (if truthy (field v ''comment_count'') then field v ''comment_count'' else JNum 0) \<and>
     field (field r ''stats'') ''shares'' =
       (if truthy (field v ''share_count'') then field v ''share_count'' else JNum 0) \<and>
     field (field r ''stats'') ''plays'' =
       (if truthy (field v ''play_count'') then field v ''play_count'' else JNum 0)"
proof -
  from assms obtain r where r: "f v = Inr r"
    using normalize_total [of v] by blast
  show ?thesis
    by (rule exI [of _ r]) (simp only: r normalize_fields [OF assms(2) r] js_or_cases simp_thms)
qed

theorem normalize_defaults_witness:
  "(\<exists>r. normalize_search (JObj [(''digg_count'', JNum 0)]) = Inr r \<and>
        field (field r ''stats'') ''likes'' = JNum 0 \<and>
        field r ''caption'' = JStr [] \<and>
        field (field r ''author'') ''username'' = JStr ''unknown'' \<and>
        field (field r ''author'') ''nickname'' = JStr ''Unknown User'') \<and>
   (\<exists>r. normalize_search (JObj []) = Inr r \<and>
        field (field r ''stats'') ''likes'' = JNum 0) \<and>
   (\<exists>r. normalize_trending (JObj [(''digg_count'', JNum 12), (''origin_cover'', JStr ''c.jpg'')])
          = Inr r \<and>
        field (field r ''stats'') ''likes'' = JNum 12 \<and>
        field r ''cover'' = JStr ''c.jpg'')"
  using normalize_defaults [of "JObj [(''digg_count'', JNum 0)]" normalize_search]
        normalize_defaults [of "JObj []" normalize_search]
        normalize_defaults [of "JObj [(''digg_count'', JNum 12), (''origin_cover'', JStr ''c.jpg'')]"
          normalize_trending]
  by (auto simp: nullish_def opt_field_def)

text \<open>
  C2, as the claim states it, fails: an upstream record with a playable URL and neither
  identifier nor cover is normalized to a record whose \<open>id\<close>, \<open>cover\<close> and
  \<open>video_url_no_wm\<close> are \<^verbatim>\<open>undefined\<close>, that is absent from the response, and the filter
  retains it.
\<close>

theorem normalized_record_without_id_and_cover:
  "normalize_search (JObj [(''play'', JStr ''https://v.example/1.mp4'')]) =
     Inr (JObj
        [(''id'', JUndefined),
         (''video_url'', JStr ''https://v.example/1.mp4''),
         (''video_url_no_wm'', JUndefined),
         (''caption'', JStr []),
         (''author'', JObj
            [(''username'', JStr ''unknown''),
             (''nickname'', JStr ''Unknown User''),
             (''avatar'', JStr [])]),
         (''cover'', JUndefined),
         (''duration'', JNum 0),
         (''stats'', JObj
            [(''likes'', JNum 0), (''comments'', JNum 0), (''shares'', JNum 0),
             (''plays'', JNum 0)]),
         (''create_time'', JUndefined)]) \<and>
   map_filter_videos normalize_search
       (JArr [JObj [(''play'', JStr ''https://v.example/1.mp4'')]]) =
     Inr [JObj
        [(''id'', JUndefined),
         (''video_url'', JStr ''https://v.example/1.mp4''),
         (''video_url_no_wm'', JUndefined),
         (''caption'', JStr []),
         (''author'', JObj
            [(''username'', JStr ''unknown''),
             (''nickname'', JStr ''Unknown User''),
             (''avatar'', JStr [])]),
         (''cover'', JUndefined),
         (''duration'', JNum 0),
         (''stats'', JObj
            [(''likes'', JNum 0), (''comments'', JNum 0), (''shares'', JNum 0),
             (''plays'', JNum 0)]),
         (''create_time'', JUndefined)]]"
  by (simp add: normalize_search_def map_filter_videos_def has_video_url_def js_or_def
      nullish_def opt_field_def)

text \<open>
  C2 (amended): every record produced by the normalizer has \<open>caption\<close>,
  \<open>author.username\<close>, \<open>author.nickname\<close>, \<open>author.avatar\<close>, \<open>duration\<close> and the four \<open>stats\<close>
  fields present (neither \<^verbatim>\<open>undefined\<close> nor \<^verbatim>\<open>null\<close>): each holds the upstream value when
  that is truthy and the documented default otherwise (\<open>""\<close> for \<open>caption\<close> and
  \<open>author.avatar\<close>, \<open>"unknown"\<close> for \<open>author.username\<close>, \<open>"Unknown User"\<close> for
  \<open>author.nickname\<close>, \<open>0\<close> for \<open>duration\<close> and the \<open>stats\<close> fields). A record that passes
  the filter has \<open>video_url\<close> present. The fields \<open>id\<close>, \<open>cover\<close> and \<open>video_url_no_wm\<close> are
  not total: \<open>id\<close> is absent exactly when the upstream record has no truthy \<open>video_id\<close> and
  no \<open>aweme_id\<close>, \<open>cover\<close> exactly when it has no truthy \<open>cover\<close> and no \<open>origin_cover\<close>,
  and \<open>video_url_no_wm\<close> exactly when it has no \<open>wmplay\<close>.
\<close>

theorem normalized_record_fields:
  assumes "f = normalize_search \<or> f = normalize_trending" and "f v = Inr r"
  shows "(field r ''caption'' =
        (if truthy (field v ''title'') then field v ''title'' else JStr []) \<and>
      field (field r ''author'') ''username'' =
        (if truthy (opt_field (field v ''author'') ''unique_id'')
         then opt_field (field v ''author'') ''unique_id'' else JStr ''unknown'') \<and>
      field (field r ''author'') ''nickname'' =
        (if truthy (opt_field (field v ''author'') ''nickname'')
         then opt_field (field v ''author'') ''nickname'' else JStr ''Unknown User'') \<and>
      field (field r ''author'') ''avatar'' =
        (if truthy (opt_field (field v ''author'') ''avatar'')
         then opt_field (field v ''author'') ''avatar'' else JStr []) \<and>
      field r ''duration'' =
        (if truthy (field v ''duration'') then field v ''duration'' else JNum 0) \<and>
      field (field r ''stats'') ''likes'' =
        (if truthy (field v ''digg_count'') then field v ''digg_count'' else JNum 0) \<and>
      field (field r ''stats'') ''comments'' =
        (if truthy (field v ''comment_count'') then field v ''comment_count'' else JNum 0) \<and>
      field (field r ''stats'') ''shares'' =
        (if truthy (field v ''share_count'') then field v ''share_count'' else JNum 0) \<and>
      field (field r ''stats'') ''plays'' =
        (if truthy (field v ''play_count'') then field v ''play_count'' else JNum 0)) \<and>
     \<not> nullish (field r ''caption'') \<and>
     \<not> nullish (field (field r ''author'') ''username'') \<and>
     \<not> nullish (field (field r ''author'') ''nickname'') \<and>
     \<not> nullish (field (field r ''author'') ''avatar'') \<and>
     \<not> nullish (field r ''duration'') \<and>
     \<not> nullish (field (field r ''stats'') ''likes'') \<and>
     \<not> nullish (field (field r ''stats'') ''comments'') \<and>
     \<not> nullish (field (field r ''stats'') ''shares'') \<and>
     \<not> nullish (field (field r ''stats'') ''plays'') \<and>
     (has_video_url r \<longrightarrow> \<not> nullish (field r ''video_url'')) \<and>
     (field r ''id'' = JUndefined \<longleftrightarrow>
        \<not> truthy (field v ''video_id'') \<and> field v ''aweme_id'' = JUndefined) \<and>
     (field r ''cover'' = JUndefined \<longleftrightarrow>
        \<not> truthy (field v ''cover'') \<and> field v ''origin_cover'' = JUndefined) \<and>
     (field r ''video_url_no_wm'' = JUndefined \<longleftrightarrow> field v ''wmplay'' = JUndefined)"
proof (rule conjI)
  show "field r ''caption'' =
        (if truthy (field v ''title'') then field v ''title'' else JStr []) \<and>
      field (field r ''author'') ''username'' =
        (if truthy (opt_field (field v ''author'') ''unique_id'')
         then opt_field (field v ''author'') ''unique_id'' else JStr ''unknown'') \<and>
      field (field r ''author'') ''nickname'' =
        (if truthy (opt_field (field v ''author'') ''nickname'')
         then opt_field (field v ''author'') ''nickname'' else JStr ''Unknown User'') \<and>
      field (field r ''author'') ''avatar'' =
        (if truthy (opt_field (field v ''author'') ''avatar'')
         then opt_field (field v ''author'') ''avatar'' else JStr []) \<and>
      field r ''duration'' =
        (if truthy (field v ''duration'') then field v ''duration'' else JNum 0) \<and>
      field (field r ''stats'') ''likes'' =
        (if truthy (field v ''digg_count'') then field v ''digg_count'' else JNum 0) \<and>
      field (field r ''stats'') ''comments'' =
        (if truthy (field v ''comment_count'') then field v ''comment_count'' else JNum 0) \<and>
      field (field r ''stats'') ''shares'' =
        (if truthy (field v ''share_count'') then field v ''share_count'' else JNum 0) \<and>
      field (field r ''stats'') ''plays'' =
        (if truthy (field v ''play_count'') then field v ''play_count'' else JNum 0)"
    by (simp only: normalize_fields [OF assms] js_or_cases simp_thms)
next
  have d: "\<not> nullish (JStr s)" "\<not> nullish (JNum n)" for s n
    by (simp_all add: nullish_def)
  have u: "has_video_url r \<longrightarrow> \<not> nullish (field r ''video_url'')"
    by (simp add: has_video_url_def truthy_not_nullish)
  show "\<not> nullish (field r ''caption'') \<and>
     \<not> nullish (field (field r ''author'') ''username'') \<and>
     \<not> nullish (field (field r ''author'') ''nickname'') \<and>
     \<not> nullish (field (field r ''author'') ''avatar'') \<and>
     \<not> nullish (field r ''duration'') \<and>
     \<not> nullish (field (field r ''stats'') ''likes'') \<and>
     \<not> nullish (field (field r ''stats'') ''comments'') \<and>
     \<not> nullish (field (field r ''stats'') ''shares'') \<and>
     \<not> nullish (field (field r ''stats'') ''plays'') \<and>
     (has_video_url r \<longrightarrow> \<not> nullish (field r ''video_url'')) \<and>
     (field r ''id'' = JUndefined \<longleftrightarrow>
        \<not> truthy (field v ''video_id'') \<and> field v ''aweme_id'' = JUndefined) \<and>
     (field r ''cover'' = JUndefined \<longleftrightarrow>
        \<not> truthy (field v ''cover'') \<and> field v ''origin_cover'' = JUndefined) \<and>
     (field r ''video_url_no_wm'' = JUndefined \<longleftrightarrow> field v ''wmplay'' = JUndefined)"
    using u by (simp add: normalize_fields [OF assms] js_or_default_present js_or_undefined d
        del: field.simps)
qed

theorem normalized_record_fields_witness:
  "field (JObj
        [(''id'', JUndefined),
         (''video_url'', JStr ''https://v.example/1.mp4''),
         (''video_url_no_wm'', JUndefined),
         (''caption'', JStr []),
         (''author'', JObj
            [(''username'', JStr ''unknown''),
             (''nickname'', JStr ''Unknown User''),
             (''avatar'', JStr [])]),
         (''cover'', JUndefined),
         (''duration'', JNum 0),
         (''stats'', JObj
            [(''likes'', JNum 0), (''comments'', JNum 0), (''shares'', JNum 0),
             (''plays'', JNum 0)]),
         (''create_time'', JUndefined)]) ''caption'' = JStr [] \<and>
   \<not> nullish (field (JObj
        [(''id'', JUndefined),
         (''video_url'', JStr ''https://v.example/1.mp4''),
         (''video_url_no_wm'', JUndefined),
         (''caption'', JStr []),
         (''author'', JObj
            [(''username'', JStr ''unknown''),
             (''nickname'', JStr ''Unknown User''),
             (''avatar'', JStr [])]),
         (''cover'', JUndefined),
         (''duration'', JNum 0),
         (''stats'', JObj
            [(''likes'', JNum 0), (''comments'', JNum 0), (''shares'', JNum 0),
             (''plays'', JNum 0)]),
         (''create_time'', JUndefined)]) ''caption'') \<and>
   field (JObj
        [(''id'', JUndefined),
         (''video_url'', JStr ''https://v.example/1.mp4''),
         (''video_url_no_wm'', JUndefined),
         (''caption'', JStr []),
         (''author'', JObj
            [(''username'', JStr ''unknown''),
             (''nickname'', JStr ''Unknown User''),
             (''avatar'', JStr [])]),
         (''cover'', JUndefined),
         (''duration'', JNum 0),
         (''stats'', JObj
            [(''likes'', JNum 0), (''comments'', JNum 0), (''shares'', JNum 0),
             (''plays'', JNum 0)]),
         (''create_time'', JUndefined)]) ''id'' = JUndefined"
  using normalized_record_fields [of normalize_search
          "JObj [(''play'', JStr ''https://v.example/1.mp4'')]"
          "JObj
            [(''id'', JUndefined),
             (''video_url'', JStr ''https://v.example/1.mp4''),
             (''video_url_no_wm'', JUndefined),
             (''caption'', JStr []),
             (''author'', JObj
                [(''username'', JStr ''unknown''),
                 (''nickname'', JStr ''Unknown User''),
                 (''avatar'', JStr [])]),
             (''cover'', JUndefined),
             (''duration'', JNum 0),
             (''stats'', JObj
                [(''likes'', JNum 0), (''comments'', JNum 0), (''shares'', JNum 0),
                 (''plays'', JNum 0)]),
             (''create_time'', JUndefined)]"]
  by (simp add: normalize_search_def js_or_def nullish_def opt_field_def)



section \<open>Properties of the library tree builder\<close>

lemma set_insert_sorted: "set (insert_sorted c x ys) = insert x (set ys)"
  by (induction ys) auto





lemma sorted_insert_sorted:
  assumes trans: "\<And>x y z. c x y \<le> 0 \<Longrightarrow> c y z \<le> 0 \<Longrightarrow> c x z \<le> 0"
    and total: "\<And>x y. c x y > 0 \<Longrightarrow> c y x \<le> 0"
  shows "sorted_wrt (\<lambda>a b. c a b \<le> 0) ys \<Longrightarrow>
         sorted_wrt (\<lambda>a b. c a b \<le> 0) (insert_sorted c x ys)"
proof (induction ys)
  case Nil
  then show ?case by simp
next
  case (Cons y ys)
  show ?case
  proof (cases "c x y \<le> 0")
    case True
    have "c x z \<le> 0" if "z \<in> set ys" for z
      using Cons.prems that True trans [of x y z] by auto
    with True Cons.prems show ?thesis
      by simp
  next
    case False
    then have "c y x \<le> 0"
      using total [of x y] by simp
    with False Cons show ?thesis
      by (simp add: set_insert_sorted)
  qed
qed

lemma sorted_js_sort:
  assumes "\<And>x y z. c x y \<le> 0 \<Longrightarrow> c y z \<le> 0 \<Longrightarrow> c x z \<le> 0"
    and "\<And>x y. c x y > 0 \<Longrightarrow> c y x \<le> 0"
  shows "sorted_wrt (\<lambda>a b. c a b \<le> 0) (js_sort c xs)"
  unfolding js_sort_def
  by (induction xs) (simp_all add: sorted_insert_sorted [OF assms])

lemma node_type_cases: "node_type a = ''dir'' \<or> node_type a = ''file''"
  by (cases a) simp_all

lemma node_compare_le:
  "node_compare lc a b \<le> 0 \<longleftrightarrow>
     (if node_type a \<noteq> node_type b then node_type a = ''dir''
      else lc (node_name a) (node_name b) \<le> 0)"
  by (simp add: node_compare_def)

lemma node_compare_trans:
  assumes "\<And>a b c. lc a b \<le> 0 \<Longrightarrow> lc b c \<le> 0 \<Longrightarrow> lc a c \<le> 0"
    and "node_compare lc x y \<le> 0" and "node_compare lc y z \<le> 0"
  shows "node_compare lc x z \<le> 0"
proof -
  have df: "''dir'' \<noteq> ''file''"
    by simp
  show ?thesis
    using assms(2,3) assms(1) [of "node_name x" "node_name y" "node_name z"]
      node_type_cases [of x] node_type_cases [of y] node_type_cases [of z] df
    unfolding node_compare_le
    by (metis (full_types))
qed

lemma node_compare_total:
  assumes "\<And>a b. lc a b > 0 \<Longrightarrow> lc b a \<le> 0" and "node_compare lc x y > 0"
  shows "node_compare lc y x \<le> 0"
proof -
  have df: "''dir'' \<noteq> ''file''"
    by simp
  have n: "\<not> node_compare lc x y \<le> 0"
    using assms(2) by simp
  show ?thesis
    using n assms(1) [of "node_name x" "node_name y"]
      node_type_cases [of x] node_type_cases [of y] df
    unfolding node_compare_le
    by (metis (full_types) not_le)
qed

lemma node_compare_le_order:
  assumes "node_compare lc a b \<le> 0"
  shows "(node_type a = ''file'' \<longrightarrow> node_type b = ''file'') \<and>
         (node_type a = node_type b \<longrightarrow> lc (node_name a) (node_name b) \<le> 0)"
proof -
  have df: "''dir'' \<noteq> ''file''"
    by simp
  show ?thesis
    using assms node_type_cases [of a] node_type_cases [of b] df unfolding node_compare_le
    by (metis (full_types))
qed

lemma readComicsTree_cases:
  "fst (readComicsTree lc baseUrl relPath d) = [] \<or>
   (\<exists>nodes. fst (readComicsTree lc baseUrl relPath d) = js_sort (node_compare lc) nodes)"
proof (cases d)
  case (FsDir es)
  show ?thesis
  proof (cases "map_entries lc baseUrl relPath (filter (\<lambda>e. \<not> hidden (fst e)) es)")
    case (Pair r logged)
    with FsDir show ?thesis
      by (cases r) auto
  qed
qed simp_all

lemma map_entries_all_stat:
  assumes "\<forall>e\<in>set es. snd e \<noteq> FsNoStat"
  shows "map_entries lc b relPath es =
     (Some (map (\<lambda>e. case snd e of
                FsFile sz mt \<Rightarrow>
                  FileNode (fst e)
                    (slashed (if relPath \<noteq> [] then path_join relPath (fst e) else fst e)) sz mt
                    (b @ ''/'' @ slashed (if relPath \<noteq> [] then path_join relPath (fst e) else fst e))
              | d \<Rightarrow>
                  DirNode (fst e)
                    (slashed (if relPath \<noteq> [] then path_join relPath (fst e) else fst e))
                    (fst (readComicsTree lc b
                       (if relPath \<noteq> [] then path_join relPath (fst e) else fst e) d))) es),
      concat (map (\<lambda>e. case snd e of
                FsFile sz mt \<Rightarrow> []
              | d \<Rightarrow> snd (readComicsTree lc b
                       (if relPath \<noteq> [] then path_join relPath (fst e) else fst e) d)) es))"
  using assms
proof (induction es)
  case Nil
  then show ?case by simp
next
  case (Cons e es)
  then have ih: "map_entries lc b relPath es =
     (Some (map (\<lambda>e. case snd e of
                FsFile sz mt \<Rightarrow>
                  FileNode (fst e)
                    (slashed (if relPath \<noteq> [] then path_join relPath (fst e) else fst e)) sz mt
                    (b @ ''/'' @ slashed (if relPath \<noteq> [] then path_join relPath (fst e) else fst e))
              | d \<Rightarrow>
                  DirNode (fst e)
                    (slashed (if relPath \<noteq> [] then path_join relPath (fst e) else fst e))
                    (fst (readComicsTree lc b
                       (if relPath \<noteq> [] then path_join relPath (fst e) else fst e) d))) es),
      concat (map (\<lambda>e. case snd e of
                FsFile sz mt \<Rightarrow> []
              | d \<Rightarrow> snd (readComicsTree lc b
                       (if relPath \<noteq> [] then path_join relPath (fst e) else fst e) d)) es))"
    by simp
  from Cons.prems have ne: "snd e \<noteq> FsNoStat"
    by simp
  show ?case
  proof (cases "snd e")
    case (FsDir cs)
    then show ?thesis
      by (simp add: ih Let_def split: prod.splits del: readComicsTree.simps)
  next
    case FsUnlistable
    then show ?thesis
      by (simp add: ih Let_def split: prod.splits del: readComicsTree.simps)
  next
    case (FsFile sz mt)
    then show ?thesis
      by (simp add: ih Let_def)
  next
    case FsNoStat
    with ne show ?thesis by simp
  qed
qed

lemma readComicsTree_all_stat:
  assumes "\<forall>e\<in>set es. \<not> hidden (fst e) \<longrightarrow> snd e \<noteq> FsNoStat"
  shows "readComicsTree lc b relPath (FsDir es) =
     (js_sort (node_compare lc)
        (map (\<lambda>e. case snd e of
                FsFile sz mt \<Rightarrow>
                  FileNode (fst e)
                    (slashed (if relPath \<noteq> [] then path_join relPath (fst e) else fst e)) sz mt
                    (b @ ''/'' @ slashed (if relPath \<noteq> [] then path_join relPath (fst e) else fst e))
              | d \<Rightarrow>
                  DirNode (fst e)
                    (slashed (if relPath \<noteq> [] then path_join relPath (fst e) else fst e))
                    (fst (readComicsTree lc b
                       (if relPath \<noteq> [] then path_join relPath (fst e) else fst e) d)))
           (filter (\<lambda>e. \<not> hidden (fst e)) es)),
      concat (map (\<lambda>e. case snd e of
                FsFile sz mt \<Rightarrow> []
              | d \<Rightarrow> snd (readComicsTree lc b
                       (if relPath \<noteq> [] then path_join relPath (fst e) else fst e) d))
           (filter (\<lambda>e. \<not> hidden (fst e)) es)))"
proof -
  have "\<forall>e\<in>set (filter (\<lambda>e. \<not> hidden (fst e)) es). snd e \<noteq> FsNoStat"
    using assms by simp
  from map_entries_all_stat [OF this, of lc b relPath] show ?thesis
    by simp
qed

lemma three_entries:
  assumes "mset es = {#x, y, z#}"
  shows "es \<in> {[x, y, z], [x, z, y], [y, x, z], [y, z, x], [z, x, y], [z, y, x]}"
proof -
  from assms have "length es = 3"
    using mset_eq_length [of es "[x, y, z]"] by simp
  then obtain a b c where es: "es = [a, b, c]"
    by (auto simp: length_Suc_conv numeral_3_eq_3)
  with assms show ?thesis
    by (auto simp: add_eq_conv_ex)
qed

lemma codeunit_compare_consistent:
  "codeunit_compare a b \<le> 0 \<Longrightarrow> codeunit_compare b c \<le> 0 \<Longrightarrow> codeunit_compare a c \<le> 0"
  "codeunit_compare a b > 0 \<Longrightarrow> codeunit_compare b a \<le> 0"
  by (auto simp: codeunit_compare_def split: if_splits)

text \<open>
  C4: with a consistent \<open>localeCompare\<close> (the collation is a total preorder), the sequence
  \<^verbatim>\<open>readComicsTree\<close> returns for any directory has every \<open>dir\<close> node before every \<open>file\<close>
  node, whatever the names, and nodes of the same type in the order of \<open>localeCompare\<close>
  on their names. With \<open>"b.txt"\<close> collating after \<open>"a.txt"\<close>, a directory holding the files
  \<open>b.txt\<close> and \<open>a.txt\<close> and the subdirectory \<open>c\<close>, listed in any order, yields
  \<open>[dir "c", file "a.txt", file "b.txt"]\<close>.
\<close>

theorem readComicsTree_order:
  assumes "\<forall>a b c. lc a b \<le> 0 \<and> lc b c \<le> 0 \<longrightarrow> lc a c \<le> 0"
    and "\<forall>a b. lc a b > 0 \<longrightarrow> lc b a \<le> 0"
  shows "sorted_wrt (\<lambda>a b. (node_type a = ''file'' \<longrightarrow> node_type b = ''file'') \<and>
                         (node_type a = node_type b \<longrightarrow> lc (node_name a) (node_name b) \<le> 0))
           (fst (readComicsTree lc baseUrl relPath d)) \<and>
         (lc ''b.txt'' ''a.txt'' > 0 \<and>
          mset es = {#(''b.txt'', FsFile sb mb), (''a.txt'', FsFile sa ma), (''c'', FsDir cs)#} \<longrightarrow>
            fst (readComicsTree lc baseUrl [] (FsDir es)) =
              [DirNode ''c'' ''c'' (fst (readComicsTree lc baseUrl ''c'' (FsDir cs))),
               FileNode ''a.txt'' ''a.txt'' sa ma (baseUrl @ ''/a.txt''),
               FileNode ''b.txt'' ''b.txt'' sb mb (baseUrl @ ''/b.txt'')])"
proof (intro conjI impI)
  have tr: "\<And>x y z. node_compare lc x y \<le> 0 \<Longrightarrow> node_compare lc y z \<le> 0 \<Longrightarrow>
              node_compare lc x z \<le> 0"
    using assms(1) node_compare_trans [of lc] by blast
  have to: "\<And>x y. node_compare lc x y > 0 \<Longrightarrow> node_compare lc y x \<le> 0"
    using assms(2) node_compare_total [of lc] by blast
  have s: "sorted_wrt (\<lambda>a b. node_compare lc a b \<le> 0) (fst (readComicsTree lc baseUrl relPath d))"
    using readComicsTree_cases [of lc baseUrl relPath d]
  proof (elim disjE exE)
    assume "fst (readComicsTree lc baseUrl relPath d) = []"
    then show ?thesis by simp
  next
    fix nodes
    assume "fst (readComicsTree lc baseUrl relPath d) = js_sort (node_compare lc) nodes"
    then show ?thesis
      using sorted_js_sort [of "node_compare lc", OF tr to] by simp
  qed
  show "sorted_wrt (\<lambda>a b. (node_type a = ''file'' \<longrightarrow> node_type b = ''file'') \<and>
                         (node_type a = node_type b \<longrightarrow> lc (node_name a) (node_name b) \<le> 0))
           (fst (readComicsTree lc baseUrl relPath d))"
  proof (rule sorted_wrt_mono_rel [OF _ s])
    fix a b
    assume "node_compare lc a b \<le> 0"
    then show "(node_type a = ''file'' \<longrightarrow> node_type b = ''file'') \<and>
               (node_type a = node_type b \<longrightarrow> lc (node_name a) (node_name b) \<le> 0)"
      by (rule node_compare_le_order)
  qed
next
  assume a: "lc ''b.txt'' ''a.txt'' > 0 \<and>
    mset es = {#(''b.txt'', FsFile sb mb), (''a.txt'', FsFile sa ma), (''c'', FsDir cs)#}"
  have ba: "\<not> lc ''b.txt'' ''a.txt'' \<le> 0"
    using a by simp
  have ab: "lc ''a.txt'' ''b.txt'' \<le> 0"
    using a assms(2) by simp
  have h: "\<not> hidden ''b.txt''" "\<not> hidden ''a.txt''" "\<not> hidden ''c''"
    by (simp_all add: hidden_def)
  have sl: "slashed ''b.txt'' = ''b.txt''" "slashed ''a.txt'' = ''a.txt''" "slashed ''c'' = ''c''"
    by (simp_all add: slashed_def)
  have es: "es \<in> {[(''b.txt'', FsFile sb mb), (''a.txt'', FsFile sa ma), (''c'', FsDir cs)],
               [(''b.txt'', FsFile sb mb), (''c'', FsDir cs), (''a.txt'', FsFile sa ma)],
               [(''a.txt'', FsFile sa ma), (''b.txt'', FsFile sb mb), (''c'', FsDir cs)],
               [(''a.txt'', FsFile sa ma), (''c'', FsDir cs), (''b.txt'', FsFile sb mb)],
               [(''c'', FsDir cs), (''b.txt'', FsFile sb mb), (''a.txt'', FsFile sa ma)],
               [(''c'', FsDir cs), (''a.txt'', FsFile sa ma), (''b.txt'', FsFile sb mb)]}"
    using a by (intro three_entries) (rule conjunct2)
  then show "fst (readComicsTree lc baseUrl [] (FsDir es)) =
              [DirNode ''c'' ''c'' (fst (readComicsTree lc baseUrl ''c'' (FsDir cs))),
               FileNode ''a.txt'' ''a.txt'' sa ma (baseUrl @ ''/a.txt''),
               FileNode ''b.txt'' ''b.txt'' sb mb (baseUrl @ ''/b.txt'')]"
    using ba ab
    by (elim insertE emptyE)
       (simp_all add: readComicsTree_all_stat h sl js_sort_def node_compare_def
          del: readComicsTree.simps)
qed

theorem readComicsTree_order_witness:
  "fst (readComicsTree codeunit_compare ''/comics'' []
     (FsDir [(''b.txt'', FsFile 10 1000), (''a.txt'', FsFile 20 2000), (''c'', FsDir [])])) =
   [DirNode ''c'' ''c'' [],
    FileNode ''a.txt'' ''a.txt'' 20 2000 ''/comics/a.txt'',
    FileNode ''b.txt'' ''b.txt'' 10 1000 ''/comics/b.txt'']"
proof -
  have c: "\<forall>a b c. codeunit_compare a b \<le> 0 \<and> codeunit_compare b c \<le> 0 \<longrightarrow>
             codeunit_compare a c \<le> 0"
    "\<forall>a b. codeunit_compare a b > 0 \<longrightarrow> codeunit_compare b a \<le> 0"
    using codeunit_compare_consistent by blast+
  have b: "codeunit_compare ''b.txt'' ''a.txt'' > 0"
    by (simp add: codeunit_compare_def)
  have e: "mset [(''b.txt'', FsFile 10 1000), (''a.txt'', FsFile 20 2000), (''c'', FsDir [])] =
           {#(''b.txt'', FsFile 10 1000), (''a.txt'', FsFile 20 2000), (''c'', FsDir [])#}"
    by simp
  have k: "fst (readComicsTree codeunit_compare ''/comics'' ''c'' (FsDir [])) = []"
    by (simp add: js_sort_def)
  note order = readComicsTree_order [OF c, where baseUrl = "''/comics''" and relPath = "[]"
        and d = FsUnlistable and sb = 10 and mb = 1000 and sa = 20 and ma = 2000 and cs = "[]"
        and es = "[(''b.txt'', FsFile 10 1000), (''a.txt'', FsFile 20 2000), (''c'', FsDir [])]"]
  have "fst (readComicsTree codeunit_compare ''/comics'' []
     (FsDir [(''b.txt'', FsFile 10 1000), (''a.txt'', FsFile 20 2000), (''c'', FsDir [])])) =
   [DirNode ''c'' ''c'' (fst (readComicsTree codeunit_compare ''/comics'' ''c'' (FsDir []))),
    FileNode ''a.txt'' ''a.txt'' 20 2000 (''/comics'' @ ''/a.txt''),
    FileNode ''b.txt'' ''b.txt'' 10 1000 (''/comics'' @ ''/b.txt'')]"
    using order [THEN conjunct2, THEN mp, OF conjI [OF b e]] .
  then show ?thesis
    unfolding k by simp
qed






end
